theory Spec2Isabelle
  imports Main "HOL-Library.Word"
begin

section \<open>The rendezvous mediator of p2psc: FakeMediator::_handle_connection\<close>

text \<open>
  The theory embeds \<^verbatim>\<open>src/integration/src/util/fake_mediator.cpp\<close>. One handler thread
  runs \<^verbatim>\<open>_handle_connection\<close> per accepted connection; the threads share the identifier
  store \<^verbatim>\<open>_key_to_identifier_store\<close> and the set \<^verbatim>\<open>_completed_disconnects\<close> (guarded by
  \<^verbatim>\<open>_mutex\<close> and \<^verbatim>\<open>_disconnect_cv\<close>). The handler is modelled as a small-step function:
  every step performs exactly one receive, one send or one access to the shared state, and
  threads interleave at step granularity.
\<close>

subsection \<open>Data\<close>

type_synonym key = string

text \<open>\<^verbatim>\<open>socket::SocketAddress\<close>: an ip string and a 16-bit port, read through \<^verbatim>\<open>ip()\<close>, \<^verbatim>\<open>port()\<close>.\<close>

datatype socket_address = SocketAddress (ip: string) (port: "16 word")

text \<open>
  \<^verbatim>\<open>PeerIdentifier(socket_address, version)\<close>, the value type of the identifier store.
  Its second field is called \<^verbatim>\<open>version\<close> in the source; here \<open>peer_version\<close>, since
  \<open>version\<close> names the field of the Advertise payload.
\<close>

datatype peer_identifier =
  PeerIdentifier (socket_address: socket_address) (peer_version: nat)

text \<open>The payload of Advertise: \<^verbatim>\<open>version\<close>, \<^verbatim>\<open>our_key\<close>, \<^verbatim>\<open>their_key\<close>.\<close>

datatype advertise = AdvertisePayload (version: nat) (our_key: key) (their_key: key)

datatype message_type =
  TAdvertise | TAdvertiseAbort | TAdvertiseChallenge | TAdvertiseResponse
  | TPeerIdentification | TPeerDisconnect

datatype message =
  Advertise advertise
  | AdvertiseAbort string
  | AdvertiseChallenge string
  | AdvertiseResponse string
  | PeerIdentification nat string "16 word"
  | PeerDisconnect "16 word"

fun message_type_of :: "message \<Rightarrow> message_type" where
  "message_type_of (Advertise _) = TAdvertise"
| "message_type_of (AdvertiseAbort _) = TAdvertiseAbort"
| "message_type_of (AdvertiseChallenge _) = TAdvertiseChallenge"
| "message_type_of (AdvertiseResponse _) = TAdvertiseResponse"
| "message_type_of (PeerIdentification _ _ _) = TPeerIdentification"
| "message_type_of (PeerDisconnect _) = TPeerDisconnect"

text \<open>
  The mediator object. \<^verbatim>\<open>kVersion\<close> (the value of \<^verbatim>\<open>_protocol_version\<close>), the hook
  \<^verbatim>\<open>_quit_after\<close> and \<^verbatim>\<open>crypto::RSA\<close> are declared in files other than the handler's, so they are
  parameters: \<open>public_encrypt k p\<close> stands for
  \<^verbatim>\<open>RSA::from_public_key(k)->public_encrypt(p)\<close>, and \<open>quit_after = None\<close> for a hook
  that matches no message type.
\<close>

record mediator =
  protocol_version :: nat
  quit_after :: "message_type option"
  public_encrypt :: "key \<Rightarrow> string \<Rightarrow> string"

text \<open>
  One connection: the address \<^verbatim>\<open>session_socket->get_socket_address()\<close> and what the
  remote peer sends on it, already decoded: its Advertise payload and the payload of its
  AdvertiseResponse. (\<^verbatim>\<open>message::decode\<close> is defined elsewhere; undecodable
  input is not modelled.)
\<close>

record session =
  get_socket_address :: socket_address
  advertise :: advertise
  advertise_response :: string

type_synonym sid = nat

subsection \<open>std::to_string on unsigned values\<close>

definition digit :: "nat \<Rightarrow> char" where
  "digit d = ''0123456789'' ! d"

fun to_string :: "nat \<Rightarrow> string" where
  "to_string n = (if n < 10 then [digit n] else to_string (n div 10) @ [digit (n mod 10)])"

declare to_string.simps [simp del]

subsection \<open>The identifier store\<close>

text \<open>
  Modelled from the spec: the class of \<^verbatim>\<open>_key_to_identifier_store\<close> is defined
  in another file. Section 4.1 of the specification: \<open>put\<close> inserts or overwrites and never
  blocks; \<open>get\<close> is a non-blocking lookup; \<open>await\<close> blocks until the key is present or the
  timeout elapses, and returns the record if it is present at wake time, otherwise
  signals a timeout. Time is not modelled: \<open>deadline\<close> says whether the wake-up is the
  one at which the timeout has elapsed.
\<close>

type_synonym identifier_store = "key \<rightharpoonup> peer_identifier"

definition store_get :: "identifier_store \<Rightarrow> key \<Rightarrow> peer_identifier option" where
  "store_get st k = st k"

definition store_put :: "identifier_store \<Rightarrow> key \<Rightarrow> peer_identifier \<Rightarrow> identifier_store" where
  "store_put st k r = st(k \<mapsto> r)"

datatype await_result = Found peer_identifier | TimedOut | StillWaiting

definition store_await :: "identifier_store \<Rightarrow> key \<Rightarrow> bool \<Rightarrow> await_result" where
  "store_await st k deadline =
     (case st k of Some r \<Rightarrow> Found r | None \<Rightarrow> if deadline then TimedOut else StillWaiting)"

subsection \<open>The disconnect barrier\<close>

text \<open>
  \<^verbatim>\<open>_add_to_disconnects\<close> inserts the address under the lock and notifies all waiters.
  \<^verbatim>\<open>_wait_for_disconnect\<close> waits on the condition variable with the predicate "the address
  is in the set" and erases the address, all while holding the lock: it is one atomic
  step that is enabled only when the address is in the set. \<open>None\<close> means that the caller
  stays blocked.
\<close>

definition add_to_disconnects :: "socket_address \<Rightarrow> socket_address set \<Rightarrow> socket_address set" where
  "add_to_disconnects address completed = insert address completed"

definition wait_for_disconnect ::
  "socket_address \<Rightarrow> socket_address set \<Rightarrow> socket_address set option" where
  "wait_for_disconnect address completed =
     (if address \<in> completed then Some (completed - {address}) else None)"

subsection \<open>The handler, step by step\<close>

datatype role = Initiator | Responder

text \<open>
  How a handler returned: through \<^verbatim>\<open>QUIT_IF_REQUESTED\<close> after a message of the given
  type, after the abort (line 88), after the await timed out (line 127), or at the end
  of the function (line 168) out of the branch of the given role. The source comments
  call the Initiator "the Client" and the Responder "the Peer".
\<close>

datatype outcome =
  QuitAfter message_type | UnsupportedVersion | PeerNeverArrived | Finished role

text \<open>Program points of \<^verbatim>\<open>_handle_connection\<close>; the locals that are live are arguments.\<close>

datatype pc =
  PC_ReceiveAdvertise
  | PC_SendAdvertiseAbort
  | PC_SendAdvertiseChallenge
  | PC_ReceiveAdvertiseResponse
  | PC_Get
  | PC_PutInitiator
  | PC_Await
  | PC_WaitForDisconnect peer_identifier
  | PC_SendPeerIdentification peer_identifier
  | PC_PutResponder peer_identifier
  | PC_SendPeerDisconnect
  | PC_AddToDisconnects
  | PC_Returned outcome

text \<open>What a step does, with the session that does it. The trace lists the newest event first.\<close>

datatype event =
  E_receive sid message
  | E_send sid message
  | E_get sid key "peer_identifier option"
  | E_put sid key peer_identifier
  | E_await sid key "peer_identifier option"
  | E_wait_for_disconnect sid socket_address
  | E_add_to_disconnects sid socket_address

text \<open>
  The shared state of the mediator, and per session: what has been sent on its socket,
  the flag \<^verbatim>\<open>_is_open\<close> of its socket (an accepted socket is open), and where its
  handler stands.
\<close>

record state =
  key_to_identifier_store :: identifier_store
  completed_disconnects :: "socket_address set"
  socket_sent :: "sid \<Rightarrow> message list"
  socket_is_open :: "sid \<Rightarrow> bool"
  pc :: "sid \<Rightarrow> pc"
  trace :: "event list"

definition init_state :: state where
  "init_state =
     \<lparr>key_to_identifier_store = Map.empty, completed_disconnects = {},
      socket_sent = (\<lambda>_. []), socket_is_open = (\<lambda>_. True),
      pc = (\<lambda>_. PC_ReceiveAdvertise), trace = []\<rparr>"

text \<open>\<^verbatim>\<open>QUIT_IF_REQUESTED(message_type, _quit_after)\<close>: return, or go on at \<open>next\<close>.\<close>

definition quit_if_requested :: "mediator \<Rightarrow> message_type \<Rightarrow> pc \<Rightarrow> pc" where
  "quit_if_requested m message_type next =
     (if Some message_type = quit_after m then PC_Returned (QuitAfter message_type) else next)"

text \<open>
  Modelled from the spec: \<^verbatim>\<open>socket.h\<close> declares \<^verbatim>\<open>~Socket()\<close>, \<^verbatim>\<open>close()\<close> and the flag
  \<^verbatim>\<open>_is_open\<close>, but their bodies are defined in another file. Section 5 of the
  specification: the connection is exclusively owned by its handler and released when the
  handler terminates, on every exit path including early-abort and error paths. The
  handler owns the socket through its \<^verbatim>\<open>shared_ptr\<close> parameter, which is dropped at every
  \<^verbatim>\<open>return\<close>: a transition to a return closes the socket of the session, and no other
  transition touches the flag.
\<close>

fun release_socket :: "sid \<Rightarrow> pc \<Rightarrow> (sid \<Rightarrow> bool) \<Rightarrow> (sid \<Rightarrow> bool)" where
  "release_socket i (PC_Returned _) is_open = is_open(i := False)"
| "release_socket i _ is_open = is_open"

text \<open>The handler of session \<open>i\<close> moves on to \<open>p\<close>, having done \<open>e\<close>.\<close>

definition goto :: "sid \<Rightarrow> pc \<Rightarrow> event \<Rightarrow> state \<Rightarrow> state" where
  "goto i p e s =
     s\<lparr>pc := (pc s)(i := p), trace := e # trace s,
       socket_is_open := release_socket i p (socket_is_open s)\<rparr>"

text \<open>\<^verbatim>\<open>_send_and_log\<close> on the session's socket; messages are appended in sending order.\<close>

definition send_and_log :: "sid \<Rightarrow> message \<Rightarrow> pc \<Rightarrow> state \<Rightarrow> state" where
  "send_and_log i msg p s =
     goto i p (E_send i msg) (s\<lparr>socket_sent := (socket_sent s)(i := socket_sent s i @ [msg])\<rparr>)"

definition nonce :: nat where
  "nonce = 1337"

definition advertise_abort :: "mediator \<Rightarrow> message" where
  "advertise_abort m =
     AdvertiseAbort (''Required protocol version: '' @ to_string (protocol_version m))"

definition advertise_challenge :: "mediator \<Rightarrow> advertise \<Rightarrow> message" where
  "advertise_challenge m adv = AdvertiseChallenge (public_encrypt m (our_key adv) (to_string nonce))"

definition peer_identification :: "peer_identifier \<Rightarrow> message" where
  "peer_identification awaited_peer =
     PeerIdentification (peer_version awaited_peer) (ip (socket_address awaited_peer))
       (port (socket_address awaited_peer))"

definition own_identifier :: "session \<Rightarrow> peer_identifier" where
  "own_identifier c = PeerIdentifier (get_socket_address c) (version (advertise c))"

text \<open>
  The call of \<open>await\<close> (line 121) at a wake-up; \<open>deadline\<close> as in \<open>store_await\<close>.
\<close>

definition await_step :: "session \<Rightarrow> sid \<Rightarrow> bool \<Rightarrow> state \<Rightarrow> state option" where
  "await_step c i deadline s =
     (case store_await (key_to_identifier_store s) (their_key (advertise c)) deadline of
        Found awaited_peer \<Rightarrow>
          Some (goto i (PC_WaitForDisconnect awaited_peer)
                  (E_await i (their_key (advertise c)) (Some awaited_peer)) s)
      | TimedOut \<Rightarrow>
          Some (goto i (PC_Returned PeerNeverArrived) (E_await i (their_key (advertise c)) None) s)
      | StillWaiting \<Rightarrow> None)"

text \<open>
  One step of the handler of session \<open>i\<close> on connection \<open>c\<close>; \<open>None\<close> when the handler
  is blocked or has returned.
\<close>

definition handle_connection :: "mediator \<Rightarrow> session \<Rightarrow> sid \<Rightarrow> state \<Rightarrow> state option" where
  "handle_connection m c i s =
     (case pc s i of
        PC_ReceiveAdvertise \<Rightarrow>
          Some (goto i
                  (quit_if_requested m TAdvertise
                     (if version (advertise c) < protocol_version m then PC_SendAdvertiseAbort
                      else PC_SendAdvertiseChallenge))
                  (E_receive i (Advertise (advertise c))) s)
      | PC_SendAdvertiseAbort \<Rightarrow>
          Some (send_and_log i (advertise_abort m)
                  (quit_if_requested m TAdvertiseAbort (PC_Returned UnsupportedVersion)) s)
      | PC_SendAdvertiseChallenge \<Rightarrow>
          Some (send_and_log i (advertise_challenge m (advertise c))
                  (quit_if_requested m TAdvertiseChallenge PC_ReceiveAdvertiseResponse) s)
      | PC_ReceiveAdvertiseResponse \<Rightarrow>
          Some (goto i (quit_if_requested m TAdvertiseResponse PC_Get)
                  (E_receive i (AdvertiseResponse (advertise_response c))) s)
      | PC_Get \<Rightarrow>
          (let maybe_peer = store_get (key_to_identifier_store s) (their_key (advertise c))
           in Some (goto i
                      (case maybe_peer of None \<Rightarrow> PC_PutInitiator
                       | Some peer \<Rightarrow> PC_PutResponder peer)
                      (E_get i (their_key (advertise c)) maybe_peer) s))
      | PC_PutInitiator \<Rightarrow>
          Some (goto i PC_Await (E_put i (our_key (advertise c)) (own_identifier c))
                  (s\<lparr>key_to_identifier_store :=
                       store_put (key_to_identifier_store s) (our_key (advertise c))
                         (own_identifier c)\<rparr>))
      | PC_Await \<Rightarrow> await_step c i False s
      | PC_WaitForDisconnect awaited_peer \<Rightarrow>
          (case wait_for_disconnect (socket_address awaited_peer) (completed_disconnects s) of
             None \<Rightarrow> None
           | Some completed \<Rightarrow>
               Some (goto i (PC_SendPeerIdentification awaited_peer)
                       (E_wait_for_disconnect i (socket_address awaited_peer))
                       (s\<lparr>completed_disconnects := completed\<rparr>)))
      | PC_SendPeerIdentification awaited_peer \<Rightarrow>
          Some (send_and_log i (peer_identification awaited_peer)
                  (quit_if_requested m TPeerIdentification (PC_Returned (Finished Initiator))) s)
      | PC_PutResponder maybe_peer \<Rightarrow>
          Some (goto i PC_SendPeerDisconnect (E_put i (our_key (advertise c)) (own_identifier c))
                  (s\<lparr>key_to_identifier_store :=
                       store_put (key_to_identifier_store s) (our_key (advertise c))
                         (own_identifier c)\<rparr>))
      | PC_SendPeerDisconnect \<Rightarrow>
          Some (send_and_log i (PeerDisconnect (port (get_socket_address c)))
                  PC_AddToDisconnects s)
      | PC_AddToDisconnects \<Rightarrow>
          Some (goto i (quit_if_requested m TPeerDisconnect (PC_Returned (Finished Responder)))
                  (E_add_to_disconnects i (get_socket_address c))
                  (s\<lparr>completed_disconnects :=
                       add_to_disconnects (get_socket_address c) (completed_disconnects s)\<rparr>))
      | PC_Returned _ \<Rightarrow> None)"

subsection \<open>Interleaving\<close>

text \<open>
  \<open>Run i\<close> lets the handler of session \<open>i\<close> take its next step. \<open>Deadline i\<close> is the
  wake-up of a handler parked in \<open>await\<close> at the moment its 2000 ms have elapsed.
\<close>

datatype action = Run sid | Deadline sid

definition exec :: "mediator \<Rightarrow> (sid \<Rightarrow> session) \<Rightarrow> action \<Rightarrow> state \<Rightarrow> state option" where
  "exec m cs a s =
     (case a of
        Run i \<Rightarrow> handle_connection m (cs i) i s
      | Deadline i \<Rightarrow> (if pc s i = PC_Await then await_step (cs i) i True s else None))"

fun run :: "mediator \<Rightarrow> (sid \<Rightarrow> session) \<Rightarrow> action list \<Rightarrow> state \<Rightarrow> state option" where
  "run m cs [] s = Some s"
| "run m cs (a # as) s = (case exec m cs a s of None \<Rightarrow> None | Some s' \<Rightarrow> run m cs as s')"

inductive reachable :: "mediator \<Rightarrow> (sid \<Rightarrow> session) \<Rightarrow> state \<Rightarrow> bool"
  for m :: mediator and cs :: "sid \<Rightarrow> session" where
  reachable_init: "reachable m cs init_state"
| reachable_exec: "reachable m cs s \<Longrightarrow> exec m cs a s = Some s' \<Longrightarrow> reachable m cs s'"

text \<open>\<open>happens_before a b tr\<close>: some occurrence of \<open>a\<close> is older than some occurrence of \<open>b\<close>.\<close>

fun happens_before :: "event \<Rightarrow> event \<Rightarrow> event list \<Rightarrow> bool" where
  "happens_before a b [] = False"
| "happens_before a b (e # tr) = ((e = b \<and> a \<in> set tr) \<or> happens_before a b tr)"

text \<open>The logs \<^verbatim>\<open>_sent_messages\<close> and \<^verbatim>\<open>_received_messages\<close>, oldest message first.\<close>

fun sent_messages :: "event list \<Rightarrow> message list" where
  "sent_messages [] = []"
| "sent_messages (E_send i msg # tr) = sent_messages tr @ [msg]"
| "sent_messages (_ # tr) = sent_messages tr"

fun received_messages :: "event list \<Rightarrow> message list" where
  "received_messages [] = []"
| "received_messages (E_receive i msg # tr) = received_messages tr @ [msg]"
| "received_messages (_ # tr) = received_messages tr"

subsection \<open>A concrete mediator and three concrete connections\<close>

text \<open>
  Used to run the handler on explicit schedules. Session 0 advertises \<open>ka\<close> and asks for
  \<open>kb\<close>, session 1 advertises \<open>kb\<close> and asks for \<open>ka\<close>; every other session is a
  bystander with key \<open>kc\<close>. The stand-in for RSA encryption keeps the plaintext readable.
\<close>

definition demo_mediator :: mediator where
  "demo_mediator =
     \<lparr>protocol_version = 1, quit_after = None,
      public_encrypt = (\<lambda>k p. ''enc('' @ k @ '','' @ p @ '')'')\<rparr>"

definition demo_sessions :: "sid \<Rightarrow> session" where
  "demo_sessions i =
     (if i = 0 then
        \<lparr>get_socket_address = SocketAddress ''10.0.0.1'' 5000,
         advertise = AdvertisePayload 1 ''ka'' ''kb'', advertise_response = ''1337''\<rparr>
      else if i = 1 then
        \<lparr>get_socket_address = SocketAddress ''10.0.0.2'' 6000,
         advertise = AdvertisePayload 1 ''kb'' ''ka'', advertise_response = ''1337''\<rparr>
      else
        \<lparr>get_socket_address = SocketAddress ''10.0.0.3'' 7000,
         advertise = AdvertisePayload 1 ''kc'' ''ka'', advertise_response = ''1337''\<rparr>)"

text \<open>Session 0 runs until it is parked in \<open>await\<close>: five steps.\<close>

definition first_arrives :: "action list" where
  "first_arrives = [Run 0, Run 0, Run 0, Run 0, Run 0]"

text \<open>Then session 1 runs to its end (seven steps), and session 0 finishes (three steps).\<close>

definition second_arrives :: "action list" where
  "second_arrives = [Run 1, Run 1, Run 1, Run 1, Run 1, Run 1, Run 1, Run 0, Run 0, Run 0]"

text \<open>What a schedule leaves behind, started in the initial state.\<close>

definition sent_after ::
  "mediator \<Rightarrow> (sid \<Rightarrow> session) \<Rightarrow> action list \<Rightarrow> sid \<Rightarrow> message list option" where
  "sent_after m cs acts i = map_option (\<lambda>s. socket_sent s i) (run m cs acts init_state)"

definition pc_after :: "mediator \<Rightarrow> (sid \<Rightarrow> session) \<Rightarrow> action list \<Rightarrow> sid \<Rightarrow> pc option" where
  "pc_after m cs acts i = map_option (\<lambda>s. pc s i) (run m cs acts init_state)"

definition trace_after :: "mediator \<Rightarrow> (sid \<Rightarrow> session) \<Rightarrow> action list \<Rightarrow> event list option" where
  "trace_after m cs acts = map_option trace (run m cs acts init_state)"

text \<open>Whether the handler of session \<open>i\<close> can take no step after the schedule.\<close>

definition stuck_after :: "mediator \<Rightarrow> (sid \<Rightarrow> session) \<Rightarrow> action list \<Rightarrow> sid \<Rightarrow> bool option" where
  "stuck_after m cs acts i =
     map_option (\<lambda>s. handle_connection m (cs i) i s = None) (run m cs acts init_state)"

text \<open>Whether an event has happened after the schedule.\<close>

definition event_after :: "mediator \<Rightarrow> (sid \<Rightarrow> session) \<Rightarrow> action list \<Rightarrow> event \<Rightarrow> bool option" where
  "event_after m cs acts e = map_option (\<lambda>s. e \<in> set (trace s)) (run m cs acts init_state)"

subsection \<open>Predicates on program points and states\<close>

text \<open>The session that an action belongs to.\<close>

fun actor :: "action \<Rightarrow> sid" where
  "actor (Run i) = i"
| "actor (Deadline i) = i"

text \<open>What the socket of a session has been sent, by program point.\<close>

fun sent_ok :: "mediator \<Rightarrow> session \<Rightarrow> pc \<Rightarrow> message list \<Rightarrow> bool" where
  "sent_ok m c PC_ReceiveAdvertise msgs = (msgs = [])"
| "sent_ok m c PC_SendAdvertiseAbort msgs = (msgs = [])"
| "sent_ok m c PC_SendAdvertiseChallenge msgs = (msgs = [])"
| "sent_ok m c PC_AddToDisconnects msgs =
     (msgs = [advertise_challenge m (advertise c), PeerDisconnect (port (get_socket_address c))])"
| "sent_ok m c (PC_Returned (QuitAfter t)) msgs =
     (quit_after m = Some t \<and>
      (case t of
         TAdvertise \<Rightarrow> msgs = []
       | TAdvertiseAbort \<Rightarrow> msgs = [advertise_abort m]
       | TAdvertiseChallenge \<Rightarrow> msgs = [advertise_challenge m (advertise c)]
       | TAdvertiseResponse \<Rightarrow> msgs = [advertise_challenge m (advertise c)]
       | TPeerIdentification \<Rightarrow>
           (\<exists>r. msgs = [advertise_challenge m (advertise c), peer_identification r])
       | TPeerDisconnect \<Rightarrow>
           msgs = [advertise_challenge m (advertise c),
                   PeerDisconnect (port (get_socket_address c))]))"
| "sent_ok m c (PC_Returned UnsupportedVersion) msgs = (msgs = [advertise_abort m])"
| "sent_ok m c (PC_Returned PeerNeverArrived) msgs = (msgs = [advertise_challenge m (advertise c)])"
| "sent_ok m c (PC_Returned (Finished Initiator)) msgs =
     (\<exists>r. msgs = [advertise_challenge m (advertise c), peer_identification r])"
| "sent_ok m c (PC_Returned (Finished Responder)) msgs =
     (msgs = [advertise_challenge m (advertise c), PeerDisconnect (port (get_socket_address c))])"
| "sent_ok m c _ msgs = (msgs = [advertise_challenge m (advertise c)])"

text \<open>The program points of the else-branch (lines 144 to 166) and the returns out of it.\<close>

fun responder_pc :: "pc \<Rightarrow> bool" where
  "responder_pc (PC_PutResponder _) = True"
| "responder_pc PC_SendPeerDisconnect = True"
| "responder_pc PC_AddToDisconnects = True"
| "responder_pc (PC_Returned (QuitAfter TPeerDisconnect)) = True"
| "responder_pc (PC_Returned (Finished Responder)) = True"
| "responder_pc _ = False"

text \<open>The program points at which a handler has put its own record into the store.\<close>

fun registered :: "pc \<Rightarrow> bool" where
  "registered PC_Await = True"
| "registered (PC_WaitForDisconnect _) = True"
| "registered (PC_SendPeerIdentification _) = True"
| "registered PC_SendPeerDisconnect = True"
| "registered PC_AddToDisconnects = True"
| "registered (PC_Returned PeerNeverArrived) = True"
| "registered (PC_Returned (Finished _)) = True"
| "registered (PC_Returned (QuitAfter TPeerIdentification)) = True"
| "registered (PC_Returned (QuitAfter TPeerDisconnect)) = True"
| "registered _ = False"

text \<open>An upper bound on the steps that a handler can still take.\<close>

fun rank :: "pc \<Rightarrow> nat" where
  "rank PC_ReceiveAdvertise = 8"
| "rank PC_SendAdvertiseAbort = 1"
| "rank PC_SendAdvertiseChallenge = 7"
| "rank PC_ReceiveAdvertiseResponse = 6"
| "rank PC_Get = 5"
| "rank PC_PutInitiator = 4"
| "rank PC_Await = 3"
| "rank (PC_WaitForDisconnect _) = 2"
| "rank (PC_SendPeerIdentification _) = 1"
| "rank (PC_PutResponder _) = 3"
| "rank PC_SendPeerDisconnect = 2"
| "rank PC_AddToDisconnects = 1"
| "rank (PC_Returned _) = 0"

text \<open>An event with the payload of a received AdvertiseResponse blanked out.\<close>

fun hide_response :: "event \<Rightarrow> event" where
  "hide_response (E_receive i (AdvertiseResponse proof_value)) = E_receive i (AdvertiseResponse [])"
| "hide_response e = e"

text \<open>
  Two states agree on everything that can be observed apart from the received payloads:
  the identifier store, the completed set, what every socket has been sent, which sockets
  are open, where every handler stands, and the sequence of events.
\<close>

definition same_observable :: "state \<Rightarrow> state \<Rightarrow> bool" where
  "same_observable s s' =
     (key_to_identifier_store s' = key_to_identifier_store s
      \<and> completed_disconnects s' = completed_disconnects s
      \<and> socket_sent s' = socket_sent s
      \<and> socket_is_open s' = socket_is_open s
      \<and> pc s' = pc s
      \<and> map hide_response (trace s') = map hide_response (trace s))"

text \<open>Whether the handler has returned.\<close>

fun returned :: "pc \<Rightarrow> bool" where
  "returned (PC_Returned _) = True"
| "returned _ = False"

text \<open>
  The three phases of a rendezvous between the parked Initiator \<open>a\<close> and the Responder on
  connection \<open>cB\<close>: the Responder has not registered yet; it has registered but not marked
  its address; it has marked its address and returned.
\<close>

definition responder_early :: "session \<Rightarrow> sid \<Rightarrow> state \<Rightarrow> bool" where
  "responder_early cB a s =
     (key_to_identifier_store s (our_key (advertise cB)) = None
      \<and> pc s a = PC_Await \<and> get_socket_address cB \<notin> completed_disconnects s)"

definition responder_registered :: "session \<Rightarrow> sid \<Rightarrow> state \<Rightarrow> bool" where
  "responder_registered cB a s =
     (key_to_identifier_store s (our_key (advertise cB)) = Some (own_identifier cB)
      \<and> get_socket_address cB \<notin> completed_disconnects s
      \<and> (pc s a = PC_Await \<or> pc s a = PC_WaitForDisconnect (own_identifier cB)))"

definition responder_marked :: "mediator \<Rightarrow> session \<Rightarrow> session \<Rightarrow> sid \<Rightarrow> state \<Rightarrow> bool" where
  "responder_marked m cA cB a s =
     (key_to_identifier_store s (our_key (advertise cB)) = Some (own_identifier cB)
      \<and> ((pc s a = PC_Await \<or> pc s a = PC_WaitForDisconnect (own_identifier cB))
            \<and> get_socket_address cB \<in> completed_disconnects s
          \<or> pc s a = PC_SendPeerIdentification (own_identifier cB)
          \<or> (pc s a = PC_Returned (QuitAfter TPeerIdentification)
                \<or> pc s a = PC_Returned (Finished Initiator))
            \<and> socket_sent s a
                = [advertise_challenge m (advertise cA), peer_identification (own_identifier cB)]))"

fun rendezvous_phase :: "mediator \<Rightarrow> session \<Rightarrow> session \<Rightarrow> sid \<Rightarrow> state \<Rightarrow> pc \<Rightarrow> bool" where
  "rendezvous_phase m cA cB a s PC_ReceiveAdvertise = responder_early cB a s"
| "rendezvous_phase m cA cB a s PC_SendAdvertiseChallenge = responder_early cB a s"
| "rendezvous_phase m cA cB a s PC_ReceiveAdvertiseResponse = responder_early cB a s"
| "rendezvous_phase m cA cB a s PC_Get = responder_early cB a s"
| "rendezvous_phase m cA cB a s (PC_PutResponder _) = responder_early cB a s"
| "rendezvous_phase m cA cB a s PC_SendPeerDisconnect = responder_registered cB a s"
| "rendezvous_phase m cA cB a s PC_AddToDisconnects = responder_registered cB a s"
| "rendezvous_phase m cA cB a s (PC_Returned (QuitAfter TPeerDisconnect)) =
     responder_marked m cA cB a s"
| "rendezvous_phase m cA cB a s (PC_Returned (Finished Responder)) = responder_marked m cA cB a s"
| "rendezvous_phase m cA cB a s _ = False"

definition rendezvous_inv :: "mediator \<Rightarrow> session \<Rightarrow> session \<Rightarrow> sid \<Rightarrow> sid \<Rightarrow> state \<Rightarrow> bool" where
  "rendezvous_inv m cA cB a b s =
     (key_to_identifier_store s (our_key (advertise cA)) \<noteq> None
      \<and> rendezvous_phase m cA cB a s (pc s b))"

subsection \<open>Further concrete connections and schedules\<close>

text \<open>Connections that advertise version 0, below the version 1 that \<open>demo_mediator\<close> requires.\<close>

definition outdated_sessions :: "sid \<Rightarrow> session" where
  "outdated_sessions i =
     \<lparr>get_socket_address = SocketAddress ''10.0.0.9'' 9000,
      advertise = AdvertisePayload 0 ''ka'' ''kb'', advertise_response = ''1337''\<rparr>"

text \<open>\<open>demo_mediator\<close> after \<^verbatim>\<open>quit_after(t)\<close>.\<close>

definition quitting_mediator :: "message_type \<Rightarrow> mediator" where
  "quitting_mediator t = demo_mediator\<lparr>quit_after := Some t\<rparr>"

text \<open>The connections of \<open>demo_sessions\<close>, each answering the challenge with a wrong value.\<close>

definition forged_sessions :: "sid \<Rightarrow> session" where
  "forged_sessions i = (demo_sessions i)\<lparr>advertise_response := ''0000''\<rparr>"

text \<open>
  Session 0 parks, session 1 runs to its end, and session 0 has returned from \<open>await\<close>.
\<close>

definition responder_done :: "action list" where
  "responder_done = first_arrives @ [Run 1, Run 1, Run 1, Run 1, Run 1, Run 1, Run 1, Run 0]"

text \<open>
  Session 0 parks, session 1 registers, session 0 returns from \<open>await\<close>, and session 1 is
  sent its PeerDisconnect.
\<close>

definition responder_marks :: "action list" where
  "responder_marks = first_arrives @ [Run 1, Run 1, Run 1, Run 1, Run 1, Run 0, Run 1]"

text \<open>Session 0 parks and session 1 runs to its end.\<close>

definition responder_quits :: "action list" where
  "responder_quits = first_arrives @ [Run 1, Run 1, Run 1, Run 1, Run 1, Run 1, Run 1]"

text \<open>
  Both sessions of a rendezvous look the other's key up (line 111) before either has
  registered its own (line 116): four steps of session 0, four steps of session 1, then
  the two puts and the two awaits.
\<close>

definition race :: "action list" where
  "race = [Run 0, Run 0, Run 0, Run 0, Run 1, Run 1, Run 1, Run 1, Run 0, Run 1, Run 0, Run 1]"

text \<open>Session 0 has timed out before session 1 arrives.\<close>

definition late_arrival :: "action list" where
  "late_arrival = first_arrives @ [Deadline 0, Run 1, Run 1, Run 1, Run 1, Run 1, Run 1, Run 1]"

text \<open>
  Four connections, the fourth from the address that the second one came from: sessions 0
  and 1 reference each other, and so do sessions 2 and 3.
\<close>

definition reuse_sessions :: "sid \<Rightarrow> session" where
  "reuse_sessions i =
     (if i = 0 then
        \<lparr>get_socket_address = SocketAddress ''10.0.0.1'' 5000,
         advertise = AdvertisePayload 1 ''ka'' ''kb'', advertise_response = ''1337''\<rparr>
      else if i = 1 then
        \<lparr>get_socket_address = SocketAddress ''10.0.0.2'' 6000,
         advertise = AdvertisePayload 1 ''kb'' ''ka'', advertise_response = ''1337''\<rparr>
      else if i = 2 then
        \<lparr>get_socket_address = SocketAddress ''10.0.0.3'' 7000,
         advertise = AdvertisePayload 1 ''kc'' ''kd'', advertise_response = ''1337''\<rparr>
      else
        \<lparr>get_socket_address = SocketAddress ''10.0.0.2'' 6000,
         advertise = AdvertisePayload 1 ''kd'' ''kc'', advertise_response = ''1337''\<rparr>)"

text \<open>
  Session 0 times out and session 1 arrives late, as in \<open>late_arrival\<close>, so that the
  completion record of session 1 is never consumed. Only after both have returned,
  session 2 runs until it is parked (five steps), session 3 runs until it has registered
  (five steps), and session 2 takes its last three steps.
\<close>

definition stale_record :: "action list" where
  "stale_record =
     late_arrival
     @ [Run 2, Run 2, Run 2, Run 2, Run 2]
     @ [Run 3, Run 3, Run 3, Run 3, Run 3]
     @ [Run 2, Run 2, Run 2]"

text \<open>
  Sessions 0 and 1 meet while bystander 2, which asks for the key of session 0, runs to
  its end in between.
\<close>

definition crowded_arrival :: "action list" where
  "crowded_arrival =
     [Run 2, Run 1, Run 2, Run 1, Run 2, Run 1, Run 2, Run 1, Run 1, Run 2, Run 0, Run 1, Run 2,
      Run 1, Run 2, Run 0, Run 0]"

subsection \<open>Basic facts about steps and runs\<close>

lemmas step_defs =
  handle_connection_def await_step_def goto_def send_and_log_def quit_if_requested_def
  store_get_def store_put_def store_await_def add_to_disconnects_def wait_for_disconnect_def
  Let_def

lemmas msg_defs = advertise_abort_def advertise_challenge_def peer_identification_def

lemmas demo_defs =
  demo_mediator_def demo_sessions_def first_arrives_def second_arrives_def init_state_def
  exec_def advertise_abort_def advertise_challenge_def peer_identification_def
  own_identifier_def nonce_def digit_def

lemma to_string_nonce: "to_string nonce = ''1337''"
  by (simp add: nonce_def to_string.simps digit_def)

lemma run_append:
  "run m cs (xs @ ys) s = (case run m cs xs s of None \<Rightarrow> None | Some s' \<Rightarrow> run m cs ys s')"
  by (induction xs arbitrary: s) (auto split: option.splits)

lemma reachable_run:
  "reachable m cs s \<Longrightarrow> run m cs acts s = Some s' \<Longrightarrow> reachable m cs s'"
proof (induction acts arbitrary: s)
  case Nil
  then show ?case by simp
next
  case (Cons a acts)
  then obtain s1 where a: "exec m cs a s = Some s1" and rest: "run m cs acts s1 = Some s'"
    by (auto split: option.splits)
  from Cons.prems(1) a have "reachable m cs s1"
    by (rule reachable_exec)
  with rest show ?case
    by (rule Cons.IH [rotated])
qed

lemma reachable_from_init:
  "run m cs acts init_state = Some s \<Longrightarrow> reachable m cs s"
  using reachable_run [OF reachable_init] .

text \<open>A step of one session leaves the program point and the socket of every other alone.\<close>

lemma exec_frame:
  "exec m cs a s = Some s' \<Longrightarrow> actor a \<noteq> i \<Longrightarrow>
     pc s' i = pc s i \<and> socket_sent s' i = socket_sent s i
     \<and> socket_is_open s' i = socket_is_open s i"
  by (cases a)
     (auto simp: exec_def step_defs split: pc.splits option.splits if_splits await_result.splits)

text \<open>A handler that has returned stays returned, and its socket sees no more messages.\<close>

lemma returned_exec:
  "exec m cs a s = Some s' \<Longrightarrow> pc s i = PC_Returned out \<Longrightarrow>
     pc s' i = PC_Returned out \<and> socket_sent s' i = socket_sent s i
     \<and> socket_is_open s' i = socket_is_open s i"
  by (cases a)
     (auto simp: exec_def step_defs split: pc.splits option.splits if_splits await_result.splits)

lemma returned_run:
  "run m cs acts s = Some s' \<Longrightarrow> pc s i = PC_Returned out \<Longrightarrow>
     pc s' i = PC_Returned out \<and> socket_sent s' i = socket_sent s i
     \<and> socket_is_open s' i = socket_is_open s i"
proof (induction acts arbitrary: s)
  case Nil
  then show ?case by simp
next
  case (Cons a acts)
  then obtain s1 where a: "exec m cs a s = Some s1" and rest: "run m cs acts s1 = Some s'"
    by (auto split: option.splits)
  from returned_exec [OF a Cons.prems(2)] Cons.IH [OF rest] show ?case
    by simp
qed

lemma handle_connection_sent_ok:
  "handle_connection m c i s = Some s' \<Longrightarrow> sent_ok m c (pc s i) (socket_sent s i) \<Longrightarrow>
     sent_ok m c (pc s' i) (socket_sent s' i)"
  by (cases "pc s i")
     (auto simp: step_defs split: option.splits if_splits await_result.splits)

lemma await_step_sent_ok:
  "await_step c i d s = Some s' \<Longrightarrow> pc s i = PC_Await \<Longrightarrow>
     sent_ok m c (pc s i) (socket_sent s i) \<Longrightarrow> sent_ok m c (pc s' i) (socket_sent s' i)"
  by (auto simp: step_defs split: option.splits if_splits await_result.splits)

lemma reachable_sent_ok:
  "reachable m cs s \<Longrightarrow> sent_ok m (cs i) (pc s i) (socket_sent s i)"
proof (induction rule: reachable.induct)
  case reachable_init
  show ?case by (simp add: init_state_def)
next
  case (reachable_exec s a s')
  show ?case
  proof (cases "actor a = i")
    case False
    with reachable_exec exec_frame [of m cs a s s' i] show ?thesis by simp
  next
    case True
    with reachable_exec show ?thesis
      by (cases a)
         (auto simp: exec_def split: if_splits
            intro: handle_connection_sent_ok await_step_sent_ok)
  qed
qed

lemma reachable_challenge_events:
  "reachable m cs s \<Longrightarrow> E_send i (AdvertiseChallenge x) \<in> set (trace s) \<Longrightarrow>
     x = public_encrypt m (our_key (advertise (cs i))) (to_string nonce)"
proof (induction rule: reachable.induct)
  case reachable_init
  then show ?case by (simp add: init_state_def)
next
  case (reachable_exec s a s')
  then show ?case
    by (cases a; cases "pc s (actor a)")
       (auto simp: exec_def step_defs advertise_challenge_def advertise_abort_def
          peer_identification_def split: option.splits if_splits await_result.splits)
qed

lemma run_snoc:
  "run m cs (acts @ [x]) s = Some s' \<longleftrightarrow>
     (\<exists>s1. run m cs acts s = Some s1 \<and> exec m cs x s1 = Some s')"
  by (auto simp: run_append split: option.splits)

text \<open>The socket of a session is open exactly as long as its handler has not returned.\<close>

lemma reachable_socket_is_open:
  "reachable m cs s \<Longrightarrow> socket_is_open s i = (\<not> returned (pc s i))"
proof (induction rule: reachable.induct)
  case reachable_init
  show ?case by (simp add: init_state_def)
next
  case (reachable_exec s a s')
  show ?case
  proof (cases "actor a = i")
    case False
    with reachable_exec exec_frame [of m cs a s s' i] show ?thesis by simp
  next
    case True
    with reachable_exec show ?thesis
      by (cases a; cases "pc s i")
         (auto simp: exec_def step_defs split: option.splits if_splits await_result.splits)
  qed
qed

subsection \<open>The nonce of the challenge\<close>

text \<open>
  Claim C9. The nonce encrypted into every AdvertiseChallenge is the constant 1337: in every
  run, whenever an AdvertiseChallenge has been sent to a session, its payload is the result
  of \<open>public_encrypt\<close> on the session's advertised own key and the plaintext \<open>1337\<close>.
  The encryption function is a parameter, so this holds for whatever it computes.
\<close>

theorem challenge_nonce_is_1337:
  assumes "reachable m cs s"
    and "E_send i (AdvertiseChallenge ciphertext) \<in> set (trace s)"
  shows "ciphertext = public_encrypt m (our_key (advertise (cs i))) ''1337''"
  using reachable_challenge_events [OF assms] by (simp add: to_string_nonce)

text \<open>The theorem at the run in which session 0 gets as far as \<open>await\<close>.\<close>

theorem challenge_nonce_is_1337_witness:
  "\<exists>s. run demo_mediator demo_sessions first_arrives init_state = Some s
     \<and> E_send 0 (AdvertiseChallenge ''enc(ka,1337)'') \<in> set (trace s)
     \<and> ''enc(ka,1337)'' = public_encrypt demo_mediator (our_key (advertise (demo_sessions 0))) ''1337''"
proof -
  define s where "s = the (run demo_mediator demo_sessions first_arrives init_state)"
  have r: "run demo_mediator demo_sessions first_arrives init_state = Some s"
    unfolding s_def by (simp add: demo_defs step_defs)
  have sent: "E_send 0 (AdvertiseChallenge ''enc(ka,1337)'') \<in> set (trace s)"
    unfolding s_def by (simp add: demo_defs step_defs to_string.simps)
  from challenge_nonce_is_1337 [OF reachable_from_init [OF r] sent] r sent
  show ?thesis by blast
qed

subsection \<open>Unsupported protocol versions\<close>

text \<open>
  The path of a session with a version below the required one, hook not set to Advertise:
  its program point is determined by the number of steps that its handler has taken.
\<close>

lemma abort_path:
  assumes "version (advertise (cs i)) < protocol_version m"
    and "quit_after m \<noteq> Some TAdvertise"
  shows "run m cs acts init_state = Some s \<Longrightarrow>
           count_list acts (Run i) = 0 \<and> pc s i = PC_ReceiveAdvertise
         \<or> count_list acts (Run i) = 1 \<and> pc s i = PC_SendAdvertiseAbort
         \<or> count_list acts (Run i) = 2
            \<and> (pc s i = PC_Returned UnsupportedVersion
                \<or> pc s i = PC_Returned (QuitAfter TAdvertiseAbort))"
proof (induction acts arbitrary: s rule: rev_induct)
  case Nil
  then show ?case by (auto simp: init_state_def)
next
  case (snoc x acts)
  from snoc.prems obtain s1 where s1: "run m cs acts init_state = Some s1"
    and x: "exec m cs x s1 = Some s"
    by (auto simp: run_snoc)
  note ih = snoc.IH [OF s1]
  show ?case
  proof (cases "actor x = i")
    case False
    then have "x \<noteq> Run i" by auto
    with ih exec_frame [OF x False] show ?thesis by simp
  next
    case True
    with ih x assms show ?thesis
      by (cases x)
         (auto simp: exec_def step_defs split: option.splits if_splits await_result.splits)
  qed
qed

text \<open>
  Claim C4, amended by "unless the hook is set to Advertise". Take a session whose
  Advertise carries a version below the required one, and any run of the mediator. The
  handler of the session takes two steps and no third, whatever the other sessions do
  in between. Before its second step nothing has been sent to the session, its socket
  is open, and the handler can take its next step (it is never blocked). With the second
  step exactly one message has been sent to it, the AdvertiseAbort whose reason ends in
  the required version; the handler has returned, the socket is closed, and the handler
  takes no further step. So no AdvertiseChallenge and no other message is ever sent to
  the session.
\<close>

theorem unsupported_version_aborts:
  assumes "run m cs acts init_state = Some s"
    and "version (advertise (cs i)) < protocol_version m"
    and "quit_after m \<noteq> Some TAdvertise"
  shows "count_list acts (Run i) \<le> 2
       \<and> (count_list acts (Run i) < 2 \<longrightarrow>
            socket_sent s i = [] \<and> socket_is_open s i
            \<and> (\<exists>s'. handle_connection m (cs i) i s = Some s'))
       \<and> (count_list acts (Run i) = 2 \<longrightarrow>
            socket_sent s i =
              [AdvertiseAbort (''Required protocol version: '' @ to_string (protocol_version m))]
            \<and> (\<exists>out. pc s i = PC_Returned out)
            \<and> \<not> socket_is_open s i
            \<and> handle_connection m (cs i) i s = None)"
proof -
  have reach: "reachable m cs s"
    by (rule reachable_from_init [OF assms(1)])
  from reach have sent: "sent_ok m (cs i) (pc s i) (socket_sent s i)"
    by (rule reachable_sent_ok)
  note is_open = reachable_socket_is_open [OF reach, of i]
  from abort_path [OF assms(2,3) assms(1)]
  consider "count_list acts (Run i) = 0" "pc s i = PC_ReceiveAdvertise"
    | "count_list acts (Run i) = 1" "pc s i = PC_SendAdvertiseAbort"
    | "count_list acts (Run i) = 2" "pc s i = PC_Returned UnsupportedVersion"
    | "count_list acts (Run i) = 2" "pc s i = PC_Returned (QuitAfter TAdvertiseAbort)"
    by (elim disjE conjE) simp_all
  then show ?thesis
  proof cases
    case 1
    with sent is_open show ?thesis by (simp add: handle_connection_def)
  next
    case 2
    with sent is_open show ?thesis by (simp add: handle_connection_def)
  next
    case 3
    with sent is_open show ?thesis by (simp add: handle_connection_def advertise_abort_def)
  next
    case 4
    with sent is_open show ?thesis by (simp add: handle_connection_def advertise_abort_def)
  qed
qed

text \<open>
  The theorem at a session of version 0 against the required version 1: after its first
  step nothing has been sent, after its second the abort has been sent and the socket
  is closed.
\<close>

theorem unsupported_version_aborts_witness:
  "\<exists>s1 s2. run demo_mediator outdated_sessions [Run 0] init_state = Some s1
     \<and> socket_sent s1 0 = [] \<and> socket_is_open s1 0
     \<and> run demo_mediator outdated_sessions [Run 0, Run 0] init_state = Some s2
     \<and> socket_sent s2 0 = [AdvertiseAbort ''Required protocol version: 1'']
     \<and> pc s2 0 = PC_Returned UnsupportedVersion
     \<and> \<not> socket_is_open s2 0
     \<and> handle_connection demo_mediator (outdated_sessions 0) 0 s2 = None"
proof -
  define s1 where "s1 = the (run demo_mediator outdated_sessions [Run 0] init_state)"
  define s2 where "s2 = the (run demo_mediator outdated_sessions [Run 0, Run 0] init_state)"
  have r1: "run demo_mediator outdated_sessions [Run 0] init_state = Some s1"
    unfolding s1_def by (simp add: demo_defs outdated_sessions_def step_defs)
  have r2: "run demo_mediator outdated_sessions [Run 0, Run 0] init_state = Some s2"
    unfolding s2_def by (simp add: demo_defs outdated_sessions_def step_defs)
  have p: "pc s2 0 = PC_Returned UnsupportedVersion"
    unfolding s2_def by (simp add: demo_defs outdated_sessions_def step_defs)
  have v: "version (advertise (outdated_sessions 0)) < protocol_version demo_mediator"
    by (simp add: demo_defs outdated_sessions_def)
  have q: "quit_after demo_mediator \<noteq> Some TAdvertise"
    by (simp add: demo_defs)
  have n: "to_string (protocol_version demo_mediator) = ''1''"
    by (simp add: demo_defs to_string.simps)
  from unsupported_version_aborts [OF r1 v q]
  have one: "socket_sent s1 0 = [] \<and> socket_is_open s1 0"
    by simp
  from unsupported_version_aborts [OF r2 v q] n
  have two: "socket_sent s2 0 = [AdvertiseAbort ''Required protocol version: 1'']
        \<and> \<not> socket_is_open s2 0
        \<and> handle_connection demo_mediator (outdated_sessions 0) 0 s2 = None"
    by simp
  with r1 r2 p one show ?thesis by blast
qed

text \<open>
  Claim C4 as it is stated is refuted by the hook. With the quit-after hook set to
  Advertise, the handler returns through \<^verbatim>\<open>QUIT_IF_REQUESTED\<close> in line 77, before the
  version check of line 79: a session whose version is too low is then sent nothing at
  all, and no AdvertiseAbort.
\<close>

theorem quit_after_advertise_skips_abort:
  "version (advertise (outdated_sessions 0)) < protocol_version (quitting_mediator TAdvertise)
   \<and> sent_after (quitting_mediator TAdvertise) outdated_sessions [Run 0] 0 = Some []
   \<and> pc_after (quitting_mediator TAdvertise) outdated_sessions [Run 0] 0
       = Some (PC_Returned (QuitAfter TAdvertise))"
  by (simp add: sent_after_def pc_after_def quitting_mediator_def outdated_sessions_def
        demo_defs step_defs)

subsection \<open>The await timeout\<close>

text \<open>
  Claim C5. An Initiator session is parked in \<open>await\<close> (line 121), its socket open. If
  its target key is still not registered when the 2000 ms have elapsed, the wake-up ends
  the session: the handler returns (line 127) without sending, and the socket is closed.
  From then on, whatever any session does, the AdvertiseChallenge stays the only message
  sent to the session, the socket stays closed, and the handler never takes another
  step.
\<close>

theorem await_timeout_ends_session:
  assumes "reachable m cs s"
    and "pc s i = PC_Await"
    and "key_to_identifier_store s (their_key (advertise (cs i))) = None"
  shows "socket_is_open s i
       \<and> (\<exists>s'. exec m cs (Deadline i) s = Some s'
             \<and> pc s' i = PC_Returned PeerNeverArrived
             \<and> trace s' = E_await i (their_key (advertise (cs i))) None # trace s
             \<and> socket_sent s' i = [advertise_challenge m (advertise (cs i))]
             \<and> \<not> socket_is_open s' i
             \<and> (\<forall>acts s''. run m cs acts s' = Some s'' \<longrightarrow>
                   pc s'' i = PC_Returned PeerNeverArrived
                   \<and> socket_sent s'' i = [advertise_challenge m (advertise (cs i))]
                   \<and> \<not> socket_is_open s'' i
                   \<and> handle_connection m (cs i) i s'' = None))"
proof -
  from assms(1) have "sent_ok m (cs i) (pc s i) (socket_sent s i)"
    by (rule reachable_sent_ok)
  with assms(2) have sent: "socket_sent s i = [advertise_challenge m (advertise (cs i))]"
    by simp
  from reachable_socket_is_open [OF assms(1), of i] assms(2)
  have was_open: "socket_is_open s i" by simp
  define s' where
    "s' = goto i (PC_Returned PeerNeverArrived) (E_await i (their_key (advertise (cs i))) None) s"
  have step: "exec m cs (Deadline i) s = Some s'"
    using assms(2,3) by (simp add: exec_def await_step_def store_await_def s'_def)
  have p: "pc s' i = PC_Returned PeerNeverArrived"
    by (simp add: s'_def goto_def)
  have t: "trace s' = E_await i (their_key (advertise (cs i))) None # trace s"
    by (simp add: s'_def goto_def)
  have o: "socket_sent s' i = [advertise_challenge m (advertise (cs i))]"
    using sent by (simp add: s'_def goto_def)
  have c: "\<not> socket_is_open s' i"
    by (simp add: s'_def goto_def)
  have "pc s'' i = PC_Returned PeerNeverArrived
        \<and> socket_sent s'' i = [advertise_challenge m (advertise (cs i))]
        \<and> \<not> socket_is_open s'' i
        \<and> handle_connection m (cs i) i s'' = None"
    if "run m cs acts s' = Some s''" for acts s''
    using returned_run [OF that p] o c by (simp add: handle_connection_def)
  with was_open step p t o c show ?thesis by blast
qed

text \<open>The theorem at session 0, parked while nobody has registered \<open>kb\<close>.\<close>

theorem await_timeout_ends_session_witness:
  "\<exists>s s'. run demo_mediator demo_sessions first_arrives init_state = Some s
     \<and> pc s 0 = PC_Await
     \<and> key_to_identifier_store s ''kb'' = None
     \<and> socket_is_open s 0
     \<and> exec demo_mediator demo_sessions (Deadline 0) s = Some s'
     \<and> pc s' 0 = PC_Returned PeerNeverArrived
     \<and> socket_sent s' 0 = [AdvertiseChallenge ''enc(ka,1337)'']
     \<and> \<not> socket_is_open s' 0"
proof -
  define s where "s = the (run demo_mediator demo_sessions first_arrives init_state)"
  have r: "run demo_mediator demo_sessions first_arrives init_state = Some s"
    unfolding s_def by (simp add: demo_defs step_defs)
  have p: "pc s 0 = PC_Await"
    unfolding s_def by (simp add: demo_defs step_defs)
  have k: "their_key (advertise (demo_sessions 0)) = ''kb''"
    by (simp add: demo_defs)
  have a: "key_to_identifier_store s ''kb'' = None"
    unfolding s_def by (simp add: demo_defs step_defs)
  have c: "advertise_challenge demo_mediator (advertise (demo_sessions 0))
             = AdvertiseChallenge ''enc(ka,1337)''"
    by (simp add: demo_defs to_string.simps)
  from await_timeout_ends_session [OF reachable_from_init [OF r] p] a k c
  obtain s' where "socket_is_open s 0"
    and "exec demo_mediator demo_sessions (Deadline 0) s = Some s'"
    and "pc s' 0 = PC_Returned PeerNeverArrived"
    and "socket_sent s' 0 = [AdvertiseChallenge ''enc(ka,1337)'']"
    and "\<not> socket_is_open s' 0"
    by auto
  with r p a show ?thesis by blast
qed

subsection \<open>Facts about traces\<close>

lemma happens_before_in_set:
  "happens_before a b tr \<Longrightarrow> a \<in> set tr \<and> b \<in> set tr"
  by (induction tr) auto

lemma peer_disconnect_sent:
  "reachable m cs s \<Longrightarrow> pc s j = PC_AddToDisconnects \<Longrightarrow>
     E_send j (PeerDisconnect (port (get_socket_address (cs j)))) \<in> set (trace s)"
proof (induction rule: reachable.induct)
  case reachable_init
  then show ?case by (simp add: init_state_def)
next
  case (reachable_exec s a s')
  then show ?case
    by (cases a; cases "pc s (actor a)";
        auto simp: exec_def step_defs msg_defs
          split: option.splits if_splits await_result.splits;
        blast)
qed

lemma add_to_disconnects_events:
  "reachable m cs s \<Longrightarrow> E_add_to_disconnects j a \<in> set (trace s) \<Longrightarrow>
     a = get_socket_address (cs j)
     \<and> happens_before (E_send j (PeerDisconnect (port a))) (E_add_to_disconnects j a) (trace s)"
proof (induction rule: reachable.induct)
  case reachable_init
  then show ?case by (simp add: init_state_def)
next
  case (reachable_exec s a' s')
  note sent = peer_disconnect_sent [OF reachable_exec.hyps(1)]
  from reachable_exec show ?case
    by (cases a'; cases "pc s (actor a')";
        auto simp: exec_def step_defs msg_defs sent
          split: option.splits if_splits await_result.splits;
        blast)
qed

lemma completed_disconnects_marked:
  "reachable m cs s \<Longrightarrow> a \<in> completed_disconnects s \<Longrightarrow>
     \<exists>j. E_add_to_disconnects j a \<in> set (trace s)"
proof (induction rule: reachable.induct)
  case reachable_init
  then show ?case by (simp add: init_state_def)
next
  case (reachable_exec s a' s')
  then show ?case
    by (cases a'; cases "pc s (actor a')";
        auto simp: exec_def step_defs msg_defs
          split: option.splits if_splits await_result.splits;
        blast)
qed

lemma wait_for_disconnect_events:
  "reachable m cs s \<Longrightarrow> E_wait_for_disconnect i a \<in> set (trace s) \<Longrightarrow>
     \<exists>j. happens_before (E_add_to_disconnects j a) (E_wait_for_disconnect i a) (trace s)"
proof (induction rule: reachable.induct)
  case reachable_init
  then show ?case by (simp add: init_state_def)
next
  case (reachable_exec s a' s')
  note marked = completed_disconnects_marked [OF reachable_exec.hyps(1)]
  from reachable_exec show ?case
    by (cases a'; cases "pc s (actor a')";
        auto simp: exec_def step_defs msg_defs
          split: option.splits if_splits await_result.splits dest: marked;
        blast dest: marked)
qed

lemma send_peer_identification_waited:
  "reachable m cs s \<Longrightarrow> pc s i = PC_SendPeerIdentification r \<Longrightarrow>
     E_wait_for_disconnect i (socket_address r) \<in> set (trace s)"
proof (induction rule: reachable.induct)
  case reachable_init
  then show ?case by (simp add: init_state_def)
next
  case (reachable_exec s a s')
  then show ?case
    by (cases a; cases "pc s (actor a)";
        auto simp: exec_def step_defs msg_defs
          split: option.splits if_splits await_result.splits;
        blast)
qed

lemma peer_identification_events:
  "reachable m cs s \<Longrightarrow> E_send i (PeerIdentification v h p) \<in> set (trace s) \<Longrightarrow>
     happens_before (E_wait_for_disconnect i (SocketAddress h p))
       (E_send i (PeerIdentification v h p)) (trace s)
     \<and> (\<exists>j. happens_before (E_add_to_disconnects j (SocketAddress h p))
               (E_send i (PeerIdentification v h p)) (trace s))"
proof (induction rule: reachable.induct)
  case reachable_init
  then show ?case by (simp add: init_state_def)
next
  case (reachable_exec s a s')
  have old: "\<exists>j. E_add_to_disconnects j (socket_address r) \<in> set (trace s)"
    "E_wait_for_disconnect k (socket_address r) \<in> set (trace s)"
    if "pc s k = PC_SendPeerIdentification r" for k r
    using send_peer_identification_waited [OF reachable_exec.hyps(1) that]
      wait_for_disconnect_events [OF reachable_exec.hyps(1), of k "socket_address r"]
      happens_before_in_set
    by blast+
  from reachable_exec show ?case
    by (cases a; cases "pc s (actor a)";
        auto simp: exec_def step_defs msg_defs
          split: option.splits if_splits await_result.splits dest: old;
        blast dest: old)
qed

lemma store_records:
  "reachable m cs s \<Longrightarrow> key_to_identifier_store s k = Some r \<Longrightarrow>
     \<exists>j. our_key (advertise (cs j)) = k \<and> r = own_identifier (cs j)"
proof (induction rule: reachable.induct)
  case reachable_init
  then show ?case by (simp add: init_state_def)
next
  case (reachable_exec s a s')
  then show ?case
    by (cases a; cases "pc s (actor a)";
        auto simp: exec_def step_defs msg_defs
          split: option.splits if_splits await_result.splits;
        blast)
qed

lemma awaited_peer_records:
  "reachable m cs s \<Longrightarrow>
     pc s i = PC_WaitForDisconnect r \<or> pc s i = PC_SendPeerIdentification r \<Longrightarrow>
     \<exists>j. our_key (advertise (cs j)) = their_key (advertise (cs i)) \<and> r = own_identifier (cs j)"
proof (induction rule: reachable.induct)
  case reachable_init
  then show ?case by (simp add: init_state_def)
next
  case (reachable_exec s a s')
  note store = store_records [OF reachable_exec.hyps(1)]
  from reachable_exec show ?case
    by (cases a; cases "pc s (actor a)";
        auto simp: exec_def step_defs msg_defs
          split: option.splits if_splits await_result.splits dest: store;
        blast dest: store)
qed

lemma peer_identification_records:
  "reachable m cs s \<Longrightarrow> E_send i (PeerIdentification v h p) \<in> set (trace s) \<Longrightarrow>
     \<exists>j. our_key (advertise (cs j)) = their_key (advertise (cs i))
        \<and> PeerIdentification v h p = peer_identification (own_identifier (cs j))"
proof (induction rule: reachable.induct)
  case reachable_init
  then show ?case by (simp add: init_state_def)
next
  case (reachable_exec s a s')
  have old: "\<exists>j. our_key (advertise (cs j)) = their_key (advertise (cs k))
                \<and> r = own_identifier (cs j)"
    if "pc s k = PC_SendPeerIdentification r" for k r
    using awaited_peer_records [OF reachable_exec.hyps(1), of k r] that by blast
  from reachable_exec show ?case
    by (cases a; cases "pc s (actor a)";
        auto simp: exec_def step_defs msg_defs
          split: option.splits if_splits await_result.splits dest: old;
        blast dest: old)
qed

lemma responder_path:
  "reachable m cs s \<Longrightarrow> E_get i k (Some r) \<in> set (trace s) \<Longrightarrow> responder_pc (pc s i)"
proof (induction rule: reachable.induct)
  case reachable_init
  then show ?case by (simp add: init_state_def)
next
  case (reachable_exec s a s')
  then show ?case
    by (cases a; cases "pc s (actor a)";
        auto simp: exec_def step_defs msg_defs
          split: option.splits if_splits await_result.splits;
        blast)
qed

lemma responder_returned:
  "reachable m cs s \<Longrightarrow>
     pc s i = PC_Returned (QuitAfter TPeerDisconnect) \<or> pc s i = PC_Returned (Finished Responder) \<Longrightarrow>
     happens_before (E_send i (PeerDisconnect (port (get_socket_address (cs i)))))
       (E_add_to_disconnects i (get_socket_address (cs i))) (trace s)"
proof (induction rule: reachable.induct)
  case reachable_init
  then show ?case by (simp add: init_state_def)
next
  case (reachable_exec s a s')
  note sent = peer_disconnect_sent [OF reachable_exec.hyps(1)]
  from reachable_exec show ?case
    by (cases a; cases "pc s (actor a)";
        auto simp: exec_def step_defs msg_defs sent
          split: option.splits if_splits await_result.splits;
        blast)
qed

subsection \<open>The disconnect barrier\<close>

text \<open>
  Claim C6. Whenever a call \<open>wait_for(address)\<close> returns (at any reachable state of the
  mediator), a \<open>mark_complete\<close> for exactly that address has been executed before, and the
  call has removed the address from the completed set. A further \<open>wait_for\<close> on the same
  address then blocks; it keeps blocking when a different address is marked, and it
  returns once the same address is marked again.
\<close>

theorem wait_for_disconnect_consumes:
  assumes "reachable m cs s"
    and "wait_for_disconnect address (completed_disconnects s) = Some completed"
  shows "(\<exists>j. E_add_to_disconnects j address \<in> set (trace s))
       \<and> completed = completed_disconnects s - {address}
       \<and> wait_for_disconnect address completed = None
       \<and> (\<forall>other. other \<noteq> address \<longrightarrow>
             wait_for_disconnect address (add_to_disconnects other completed) = None)
       \<and> wait_for_disconnect address (add_to_disconnects address completed) = Some completed"
proof -
  from assms(2) have mem: "address \<in> completed_disconnects s"
    and eq: "completed = completed_disconnects s - {address}"
    by (auto simp: wait_for_disconnect_def split: if_splits)
  from completed_disconnects_marked [OF assms(1) mem]
  have "\<exists>j. E_add_to_disconnects j address \<in> set (trace s)" .
  moreover from eq have "wait_for_disconnect address completed = None"
    by (simp add: wait_for_disconnect_def)
  moreover from eq have "\<forall>other. other \<noteq> address \<longrightarrow>
      wait_for_disconnect address (add_to_disconnects other completed) = None"
    by (simp add: wait_for_disconnect_def add_to_disconnects_def)
  moreover from eq
  have "wait_for_disconnect address (add_to_disconnects address completed) = Some completed"
    by (auto simp: wait_for_disconnect_def add_to_disconnects_def)
  ultimately show ?thesis using eq by blast
qed

text \<open>
  The theorem at the state in which session 1 has marked its address and session 0 is
  about to wait for it.
\<close>

theorem wait_for_disconnect_consumes_witness:
  "\<exists>s. run demo_mediator demo_sessions responder_done init_state = Some s
     \<and> wait_for_disconnect (SocketAddress ''10.0.0.2'' 6000) (completed_disconnects s) = Some {}
     \<and> E_add_to_disconnects 1 (SocketAddress ''10.0.0.2'' 6000) \<in> set (trace s)
     \<and> wait_for_disconnect (SocketAddress ''10.0.0.2'' 6000) {} = None"
proof -
  define s where "s = the (run demo_mediator demo_sessions responder_done init_state)"
  have r: "run demo_mediator demo_sessions responder_done init_state = Some s"
    unfolding s_def by (simp add: responder_done_def demo_defs step_defs)
  have w: "wait_for_disconnect (SocketAddress ''10.0.0.2'' 6000) (completed_disconnects s) = Some {}"
    unfolding s_def by (simp add: responder_done_def demo_defs step_defs)
  have e: "E_add_to_disconnects 1 (SocketAddress ''10.0.0.2'' 6000) \<in> set (trace s)"
    unfolding s_def by (simp add: responder_done_def demo_defs step_defs)
  from wait_for_disconnect_consumes [OF reachable_from_init [OF r] w]
  have "wait_for_disconnect (SocketAddress ''10.0.0.2'' 6000) {} = None"
    by blast
  with r w e show ?thesis by blast
qed

text \<open>
  Claim C7. \<open>mark_complete\<close> is idempotent: marking an address twice leaves the completed
  set as marking it once does. A handler that is about to call it is never blocked: its
  step is enabled in every state, records the address in the completed set, and leaves
  every handler that waits for this address able to take its step (all waiters are woken).
\<close>

theorem add_to_disconnects_idempotent:
  assumes "pc s i = PC_AddToDisconnects"
  shows "\<exists>s'. handle_connection m c i s = Some s'
           \<and> completed_disconnects s'
               = add_to_disconnects (get_socket_address c) (completed_disconnects s)
           \<and> get_socket_address c \<in> completed_disconnects s'
           \<and> add_to_disconnects (get_socket_address c) (completed_disconnects s')
               = completed_disconnects s'
           \<and> (\<forall>completed address.
                 add_to_disconnects address (add_to_disconnects address completed)
                   = add_to_disconnects address completed)
           \<and> (\<forall>j c' waited.
                 pc s' j = PC_WaitForDisconnect waited
                 \<and> socket_address waited = get_socket_address c
                 \<longrightarrow> handle_connection m c' j s' \<noteq> None)"
  using assms by (auto simp: step_defs)

text \<open>
  The theorem at the state in which session 1 has been sent its PeerDisconnect while
  session 0 waits for the address of session 1.
\<close>

theorem add_to_disconnects_idempotent_witness:
  "\<exists>s s'. run demo_mediator demo_sessions responder_marks init_state = Some s
     \<and> pc s 1 = PC_AddToDisconnects
     \<and> pc s 0 = PC_WaitForDisconnect (PeerIdentifier (SocketAddress ''10.0.0.2'' 6000) 1)
     \<and> handle_connection demo_mediator (demo_sessions 0) 0 s = None
     \<and> handle_connection demo_mediator (demo_sessions 1) 1 s = Some s'
     \<and> completed_disconnects s' = {SocketAddress ''10.0.0.2'' 6000}
     \<and> handle_connection demo_mediator (demo_sessions 0) 0 s' \<noteq> None"
proof -
  define s where "s = the (run demo_mediator demo_sessions responder_marks init_state)"
  have r: "run demo_mediator demo_sessions responder_marks init_state = Some s"
    unfolding s_def by (simp add: responder_marks_def demo_defs step_defs)
  have p1: "pc s 1 = PC_AddToDisconnects"
    unfolding s_def by (simp add: responder_marks_def demo_defs step_defs)
  have p0: "pc s 0 = PC_WaitForDisconnect (PeerIdentifier (SocketAddress ''10.0.0.2'' 6000) 1)"
    unfolding s_def by (simp add: responder_marks_def demo_defs step_defs)
  have c: "completed_disconnects s = {}"
    unfolding s_def by (simp add: responder_marks_def demo_defs step_defs)
  have b: "handle_connection demo_mediator (demo_sessions 0) 0 s = None"
    using p0 c by (simp add: step_defs)
  have a: "get_socket_address (demo_sessions 1) = SocketAddress ''10.0.0.2'' 6000"
    by (simp add: demo_defs)
  from add_to_disconnects_idempotent [OF p1, of demo_mediator "demo_sessions 1"]
  obtain s' where step: "handle_connection demo_mediator (demo_sessions 1) 1 s = Some s'"
    and c': "completed_disconnects s'
               = add_to_disconnects (get_socket_address (demo_sessions 1)) (completed_disconnects s)"
    and woken: "\<forall>j c' waited.
                 pc s' j = PC_WaitForDisconnect waited
                 \<and> socket_address waited = get_socket_address (demo_sessions 1)
                 \<longrightarrow> handle_connection demo_mediator c' j s' \<noteq> None"
    by blast
  from step p1 p0 have "pc s' 0 = PC_WaitForDisconnect (PeerIdentifier (SocketAddress ''10.0.0.2'' 6000) 1)"
    by (auto simp: step_defs)
  with woken a have "handle_connection demo_mediator (demo_sessions 0) 0 s' \<noteq> None"
    by simp
  moreover from c' c a have "completed_disconnects s' = {SocketAddress ''10.0.0.2'' 6000}"
    by (simp add: add_to_disconnects_def)
  ultimately show ?thesis using r p1 p0 b step by blast
qed

subsection \<open>The Responder path\<close>

text \<open>
  Claim C10. A session has taken the Responder path when its lookup of the target key
  (line 111) found a record. Whenever the handler of such a session has returned, it has
  sent the PeerDisconnect carrying its own port and, after that, has executed
  \<^verbatim>\<open>_add_to_disconnects\<close> for its own address; it has returned either at the end of the
  function or through the quit-after hook for PeerDisconnect, which is checked only
  after \<^verbatim>\<open>_add_to_disconnects\<close> (line 165). Nothing is assumed about the hook.
\<close>

theorem responder_marks_complete_before_return:
  assumes "reachable m cs s"
    and "E_get i k (Some peer) \<in> set (trace s)"
    and "pc s i = PC_Returned out"
  shows "happens_before (E_send i (PeerDisconnect (port (get_socket_address (cs i)))))
           (E_add_to_disconnects i (get_socket_address (cs i))) (trace s)
       \<and> (out = QuitAfter TPeerDisconnect \<or> out = Finished Responder)"
proof -
  from responder_path [OF assms(1,2)] assms(3)
  have out: "out = QuitAfter TPeerDisconnect \<or> out = Finished Responder"
    by (cases "pc s i" rule: responder_pc.cases) auto
  with responder_returned [OF assms(1), of i] assms(3) show ?thesis
    by auto
qed

text \<open>
  The theorem with the hook set to PeerDisconnect, after session 0 has parked and
  session 1 has run to its return.
\<close>

theorem responder_marks_complete_before_return_witness:
  "\<exists>s. run (quitting_mediator TPeerDisconnect) demo_sessions responder_quits init_state = Some s
     \<and> pc s 1 = PC_Returned (QuitAfter TPeerDisconnect)
     \<and> happens_before (E_send 1 (PeerDisconnect 6000))
         (E_add_to_disconnects 1 (SocketAddress ''10.0.0.2'' 6000)) (trace s)
     \<and> SocketAddress ''10.0.0.2'' 6000 \<in> completed_disconnects s"
proof -
  define s where
    "s = the (run (quitting_mediator TPeerDisconnect) demo_sessions responder_quits init_state)"
  have r: "run (quitting_mediator TPeerDisconnect) demo_sessions responder_quits init_state = Some s"
    unfolding s_def by (simp add: responder_quits_def quitting_mediator_def demo_defs step_defs)
  have p: "pc s 1 = PC_Returned (QuitAfter TPeerDisconnect)"
    unfolding s_def by (simp add: responder_quits_def quitting_mediator_def demo_defs step_defs)
  have g: "E_get 1 ''ka'' (Some (PeerIdentifier (SocketAddress ''10.0.0.1'' 5000) 1)) \<in> set (trace s)"
    unfolding s_def by (simp add: responder_quits_def quitting_mediator_def demo_defs step_defs)
  have c: "SocketAddress ''10.0.0.2'' 6000 \<in> completed_disconnects s"
    unfolding s_def by (simp add: responder_quits_def quitting_mediator_def demo_defs step_defs)
  have a: "get_socket_address (demo_sessions 1) = SocketAddress ''10.0.0.2'' 6000"
    by (simp add: demo_defs)
  from responder_marks_complete_before_return [OF reachable_from_init [OF r] g p] a
  have "happens_before (E_send 1 (PeerDisconnect 6000))
         (E_add_to_disconnects 1 (SocketAddress ''10.0.0.2'' 6000)) (trace s)"
    by simp
  with r p c show ?thesis by blast
qed

subsection \<open>The ordering across the two sessions of a rendezvous\<close>

text \<open>
  Without any assumption on the sessions: a PeerIdentification is sent only after the
  sender has returned from \<open>wait_for\<close> on the address it carries, and that only after
  some session with this address has been sent its PeerDisconnect and has then executed
  \<open>mark_complete\<close> for the address.
\<close>

lemma peer_identification_after_mark_complete:
  assumes "reachable m cs s"
    and "E_send a (PeerIdentification v h p) \<in> set (trace s)"
  shows "\<exists>j. get_socket_address (cs j) = SocketAddress h p
           \<and> happens_before (E_send j (PeerDisconnect p))
                (E_add_to_disconnects j (SocketAddress h p)) (trace s)
           \<and> happens_before (E_add_to_disconnects j (SocketAddress h p))
                (E_send a (PeerIdentification v h p)) (trace s)"
proof -
  from peer_identification_events [OF assms]
  obtain j where hb: "happens_before (E_add_to_disconnects j (SocketAddress h p))
                        (E_send a (PeerIdentification v h p)) (trace s)"
    by blast
  then have "E_add_to_disconnects j (SocketAddress h p) \<in> set (trace s)"
    by (simp add: happens_before_in_set)
  from add_to_disconnects_events [OF assms(1) this]
  have "get_socket_address (cs j) = SocketAddress h p"
    and "happens_before (E_send j (PeerDisconnect p))
           (E_add_to_disconnects j (SocketAddress h p)) (trace s)"
    by auto
  with hb show ?thesis by blast
qed

text \<open>
  When the Responder is the only session with its key and the only one with its address,
  the ordering holds for the two sessions themselves. Let the Initiator \<open>a\<close> ask for the
  key that the Responder \<open>b\<close> advertises and \<open>b\<close> for the key of \<open>a\<close>. If a
  PeerIdentification has been sent to \<open>a\<close>, then it carries the address and version of
  \<open>b\<close>, and in the trace: the PeerDisconnect to \<open>b\<close> is older than the \<open>mark_complete\<close>
  of \<open>b\<close>, which is older than the return of \<open>wait_for\<close> in \<open>a\<close> on the address of
  \<open>b\<close>, which is older than the PeerIdentification to \<open>a\<close>.
\<close>

theorem mark_complete_before_peer_identification:
  assumes "reachable m cs s"
    and "their_key (advertise (cs a)) = our_key (advertise (cs b))"
    and "their_key (advertise (cs b)) = our_key (advertise (cs a))"
    and "\<forall>j. our_key (advertise (cs j)) = our_key (advertise (cs b)) \<longrightarrow> j = b"
    and "\<forall>j. get_socket_address (cs j) = get_socket_address (cs b) \<longrightarrow> j = b"
    and "E_send a (PeerIdentification v h p) \<in> set (trace s)"
  shows "SocketAddress h p = get_socket_address (cs b) \<and> v = version (advertise (cs b))
       \<and> happens_before (E_send b (PeerDisconnect p))
           (E_add_to_disconnects b (SocketAddress h p)) (trace s)
       \<and> happens_before (E_add_to_disconnects b (SocketAddress h p))
           (E_wait_for_disconnect a (SocketAddress h p)) (trace s)
       \<and> happens_before (E_wait_for_disconnect a (SocketAddress h p))
           (E_send a (PeerIdentification v h p)) (trace s)
       \<and> happens_before (E_add_to_disconnects b (SocketAddress h p))
           (E_send a (PeerIdentification v h p)) (trace s)"
proof -
  from peer_identification_records [OF assms(1,6)] assms(2,4)
  have msg: "PeerIdentification v h p = peer_identification (own_identifier (cs b))"
    by auto
  then have addr: "SocketAddress h p = get_socket_address (cs b)"
    and ver: "v = version (advertise (cs b))"
    by (cases "get_socket_address (cs b)"; simp add: peer_identification_def own_identifier_def)+
  have marker: "j = b" if "E_add_to_disconnects j (SocketAddress h p) \<in> set (trace s)" for j
    using add_to_disconnects_events [OF assms(1) that] addr assms(5) by simp
  from peer_identification_events [OF assms(1,6)]
  have waited: "happens_before (E_wait_for_disconnect a (SocketAddress h p))
                  (E_send a (PeerIdentification v h p)) (trace s)"
    by blast
  then have "E_wait_for_disconnect a (SocketAddress h p) \<in> set (trace s)"
    by (simp add: happens_before_in_set)
  from wait_for_disconnect_events [OF assms(1) this]
  obtain j where hb1: "happens_before (E_add_to_disconnects j (SocketAddress h p))
                         (E_wait_for_disconnect a (SocketAddress h p)) (trace s)"
    by blast
  with marker [of j] have marked: "happens_before (E_add_to_disconnects b (SocketAddress h p))
                         (E_wait_for_disconnect a (SocketAddress h p)) (trace s)"
    by (simp add: happens_before_in_set)
  from peer_identification_after_mark_complete [OF assms(1,6)]
  obtain j' where "happens_before (E_send j' (PeerDisconnect p))
                     (E_add_to_disconnects j' (SocketAddress h p)) (trace s)"
    and "happens_before (E_add_to_disconnects j' (SocketAddress h p))
           (E_send a (PeerIdentification v h p)) (trace s)"
    by blast
  with marker [of j']
  have "happens_before (E_send b (PeerDisconnect p))
          (E_add_to_disconnects b (SocketAddress h p)) (trace s)"
    and "happens_before (E_add_to_disconnects b (SocketAddress h p))
           (E_send a (PeerIdentification v h p)) (trace s)"
    by (simp_all add: happens_before_in_set)
  with addr ver marked waited show ?thesis by simp
qed

text \<open>The theorem at the complete rendezvous of sessions 0 and 1.\<close>

theorem mark_complete_before_peer_identification_witness:
  "\<exists>s. run demo_mediator demo_sessions (first_arrives @ second_arrives) init_state = Some s
     \<and> E_send 0 (PeerIdentification 1 ''10.0.0.2'' 6000) \<in> set (trace s)
     \<and> happens_before (E_add_to_disconnects 1 (SocketAddress ''10.0.0.2'' 6000))
         (E_send 0 (PeerIdentification 1 ''10.0.0.2'' 6000)) (trace s)"
proof -
  define s where
    "s = the (run demo_mediator demo_sessions (first_arrives @ second_arrives) init_state)"
  have r: "run demo_mediator demo_sessions (first_arrives @ second_arrives) init_state = Some s"
    unfolding s_def by (simp add: demo_defs step_defs)
  have e: "E_send 0 (PeerIdentification 1 ''10.0.0.2'' 6000) \<in> set (trace s)"
    unfolding s_def by (simp add: demo_defs step_defs)
  have k1: "their_key (advertise (demo_sessions 0)) = our_key (advertise (demo_sessions 1))"
    and k2: "their_key (advertise (demo_sessions 1)) = our_key (advertise (demo_sessions 0))"
    and u1: "\<forall>j. our_key (advertise (demo_sessions j)) = our_key (advertise (demo_sessions 1))
               \<longrightarrow> j = 1"
    and u2: "\<forall>j. get_socket_address (demo_sessions j) = get_socket_address (demo_sessions 1)
               \<longrightarrow> j = 1"
    by (simp_all add: demo_sessions_def)
  from mark_complete_before_peer_identification [OF reachable_from_init [OF r] k1 k2 u1 u2 e]
  have "happens_before (E_add_to_disconnects 1 (SocketAddress ''10.0.0.2'' 6000))
         (E_send 0 (PeerIdentification 1 ''10.0.0.2'' 6000)) (trace s)"
    by blast
  with r e show ?thesis by blast
qed

text \<open>
  Claim C1 fails on the code. The barrier is keyed by the address alone, and a completion
  record that no Initiator consumed stays in \<^verbatim>\<open>_completed_disconnects\<close>. On the schedule
  \<open>stale_record\<close> session 1 has marked its address and returned before session 3 connects
  from the same address. Sessions 2 and 3 reference each other; session 2 is the
  Initiator and session 3 the Responder. The \<open>wait_for\<close> of session 2 returns on the
  record that session 1 left behind, and session 2 is sent the PeerIdentification while
  session 3 has neither been sent its PeerDisconnect nor executed \<open>mark_complete\<close>.
\<close>

theorem stale_record_releases_initiator:
  "pc_after demo_mediator reuse_sessions late_arrival 1 = Some (PC_Returned (Finished Responder))
   \<and> pc_after demo_mediator reuse_sessions late_arrival 3 = Some PC_ReceiveAdvertise
   \<and> their_key (advertise (reuse_sessions 2)) = our_key (advertise (reuse_sessions 3))
   \<and> their_key (advertise (reuse_sessions 3)) = our_key (advertise (reuse_sessions 2))
   \<and> sent_after demo_mediator reuse_sessions stale_record 2
       = Some [AdvertiseChallenge ''enc(kc,1337)'', PeerIdentification 1 ''10.0.0.2'' 6000]
   \<and> sent_after demo_mediator reuse_sessions stale_record 3
       = Some [AdvertiseChallenge ''enc(kd,1337)'']
   \<and> pc_after demo_mediator reuse_sessions stale_record 3 = Some PC_SendPeerDisconnect
   \<and> event_after demo_mediator reuse_sessions stale_record
         (E_send 2 (PeerIdentification 1 ''10.0.0.2'' 6000)) = Some True
   \<and> event_after demo_mediator reuse_sessions stale_record
         (E_add_to_disconnects 3 (SocketAddress ''10.0.0.2'' 6000)) = Some False
   \<and> event_after demo_mediator reuse_sessions stale_record
         (E_add_to_disconnects 1 (SocketAddress ''10.0.0.2'' 6000)) = Some True"
  by (simp add: sent_after_def pc_after_def event_after_def stale_record_def late_arrival_def
        reuse_sessions_def demo_defs step_defs to_string.simps)

subsection \<open>The AdvertiseResponse is not inspected\<close>

lemma exec_same_observable:
  assumes "\<forall>i. get_socket_address (cs' i) = get_socket_address (cs i)
             \<and> advertise (cs' i) = advertise (cs i)"
    and "same_observable s s'"
  shows "rel_option same_observable (exec m cs a s) (exec m cs' a s')"
  using assms
  by (cases a; cases "pc s (actor a)")
     (auto simp: same_observable_def exec_def step_defs msg_defs own_identifier_def
        split: option.splits if_splits await_result.splits)

lemma run_same_observable:
  assumes "\<forall>i. get_socket_address (cs' i) = get_socket_address (cs i)
             \<and> advertise (cs' i) = advertise (cs i)"
  shows "same_observable s s' \<Longrightarrow> rel_option same_observable (run m cs acts s) (run m cs' acts s')"
proof (induction acts arbitrary: s s')
  case Nil
  then show ?case by simp
next
  case (Cons a acts)
  from exec_same_observable [OF assms Cons.prems, of m a] Cons.IH show ?case
    by (cases "exec m cs a s"; cases "exec m cs' a s'") auto
qed

text \<open>
  Claim C8. Take two families of connections that differ at most in the payloads of their
  AdvertiseResponse messages. Under every schedule the two runs either both get stuck or
  end in states that agree on the identifier store, the completed set, the messages sent
  on every socket, the program point of every handler and, up to the payload of the
  received AdvertiseResponse, the whole sequence of events: the handler goes on to the
  lookup of line 111 whatever the proof value is.
\<close>

theorem advertise_response_not_verified:
  assumes "\<forall>i. get_socket_address (cs' i) = get_socket_address (cs i)
             \<and> advertise (cs' i) = advertise (cs i)"
  shows "rel_option same_observable (run m cs acts init_state) (run m cs' acts init_state)"
  by (rule run_same_observable [OF assms]) (simp add: same_observable_def)

text \<open>
  The theorem at the complete rendezvous of sessions 0 and 1, once with the right proof
  values and once with wrong ones.
\<close>

theorem advertise_response_not_verified_witness:
  "\<exists>s s'. run demo_mediator demo_sessions (first_arrives @ second_arrives) init_state = Some s
     \<and> run demo_mediator forged_sessions (first_arrives @ second_arrives) init_state = Some s'
     \<and> received_messages (trace s) \<noteq> received_messages (trace s')
     \<and> same_observable s s'
     \<and> socket_sent s' 0 = [AdvertiseChallenge ''enc(ka,1337)'', PeerIdentification 1 ''10.0.0.2'' 6000]"
proof -
  define s where
    "s = the (run demo_mediator demo_sessions (first_arrives @ second_arrives) init_state)"
  define s' where
    "s' = the (run demo_mediator forged_sessions (first_arrives @ second_arrives) init_state)"
  have r: "run demo_mediator demo_sessions (first_arrives @ second_arrives) init_state = Some s"
    unfolding s_def by (simp add: demo_defs step_defs)
  have r': "run demo_mediator forged_sessions (first_arrives @ second_arrives) init_state = Some s'"
    unfolding s'_def by (simp add: forged_sessions_def demo_defs step_defs)
  have d: "received_messages (trace s) \<noteq> received_messages (trace s')"
    unfolding s_def s'_def by (simp add: forged_sessions_def demo_defs step_defs)
  have o: "socket_sent s' 0
             = [AdvertiseChallenge ''enc(ka,1337)'', PeerIdentification 1 ''10.0.0.2'' 6000]"
    unfolding s'_def by (simp add: forged_sessions_def demo_defs step_defs to_string.simps)
  have "\<forall>i. get_socket_address (forged_sessions i) = get_socket_address (demo_sessions i)
          \<and> advertise (forged_sessions i) = advertise (demo_sessions i)"
    by (simp add: forged_sessions_def)
  from advertise_response_not_verified [OF this, of demo_mediator "first_arrives @ second_arrives"]
    r r'
  have "same_observable s s'" by simp
  with r r' d o show ?thesis by blast
qed

subsection \<open>Who becomes Initiator\<close>

text \<open>
  Claim C3 fails on the code. On the schedule \<open>race\<close> both lookups find nothing, so both
  sessions take the Initiator branch and none the Responder branch. Each then waits for
  the other's address in \<^verbatim>\<open>_wait_for_disconnect\<close>, which nobody will ever mark: neither
  handler can take a step, and neither has been sent more than its challenge.
\<close>

theorem race_makes_two_initiators:
  "trace_after demo_mediator demo_sessions race =
     Some [E_await 1 ''ka'' (Some (PeerIdentifier (SocketAddress ''10.0.0.1'' 5000) 1)),
           E_await 0 ''kb'' (Some (PeerIdentifier (SocketAddress ''10.0.0.2'' 6000) 1)),
           E_put 1 ''kb'' (PeerIdentifier (SocketAddress ''10.0.0.2'' 6000) 1),
           E_put 0 ''ka'' (PeerIdentifier (SocketAddress ''10.0.0.1'' 5000) 1),
           E_get 1 ''ka'' None,
           E_receive 1 (AdvertiseResponse ''1337''),
           E_send 1 (AdvertiseChallenge ''enc(kb,1337)''),
           E_receive 1 (Advertise (AdvertisePayload 1 ''kb'' ''ka'')),
           E_get 0 ''kb'' None,
           E_receive 0 (AdvertiseResponse ''1337''),
           E_send 0 (AdvertiseChallenge ''enc(ka,1337)''),
           E_receive 0 (Advertise (AdvertisePayload 1 ''ka'' ''kb''))]
   \<and> pc_after demo_mediator demo_sessions race 0
       = Some (PC_WaitForDisconnect (PeerIdentifier (SocketAddress ''10.0.0.2'' 6000) 1))
   \<and> pc_after demo_mediator demo_sessions race 1
       = Some (PC_WaitForDisconnect (PeerIdentifier (SocketAddress ''10.0.0.1'' 5000) 1))
   \<and> stuck_after demo_mediator demo_sessions race 0 = Some True
   \<and> stuck_after demo_mediator demo_sessions race 1 = Some True
   \<and> sent_after demo_mediator demo_sessions race 0 = Some [AdvertiseChallenge ''enc(ka,1337)'']
   \<and> sent_after demo_mediator demo_sessions race 1 = Some [AdvertiseChallenge ''enc(kb,1337)'']"
  by (simp add: trace_after_def pc_after_def stuck_after_def sent_after_def race_def demo_defs
        step_defs to_string.simps)

subsection \<open>A rendezvous from the parked Initiator to the end\<close>

lemma store_registered:
  "reachable m cs s \<Longrightarrow> key_to_identifier_store s k = Some r \<Longrightarrow>
     \<exists>j. our_key (advertise (cs j)) = k \<and> registered (pc s j)"
proof (induction rule: reachable.induct)
  case reachable_init
  then show ?case by (simp add: init_state_def)
next
  case (reachable_exec s a s')
  then show ?case
    by (cases a; cases "pc s (actor a)";
        auto simp: exec_def step_defs msg_defs
          split: option.splits if_splits await_result.splits;
        metis registered.simps)
qed

lemma registered_stored:
  "reachable m cs s \<Longrightarrow> registered (pc s i) \<Longrightarrow>
     key_to_identifier_store s (our_key (advertise (cs i))) \<noteq> None"
proof (induction rule: reachable.induct)
  case reachable_init
  then show ?case by (simp add: init_state_def)
next
  case (reachable_exec s a s')
  then show ?case
    by (cases a; cases "pc s (actor a)")
       (auto simp: exec_def step_defs msg_defs
          split: option.splits if_splits await_result.splits)
qed

lemma completed_returned:
  "reachable m cs s \<Longrightarrow> x \<in> completed_disconnects s \<Longrightarrow>
     \<exists>j. get_socket_address (cs j) = x
        \<and> (pc s j = PC_Returned (QuitAfter TPeerDisconnect)
            \<or> pc s j = PC_Returned (Finished Responder))"
proof (induction rule: reachable.induct)
  case reachable_init
  then show ?case by (simp add: init_state_def)
next
  case (reachable_exec s a s')
  then show ?case
    by (cases a; cases "pc s (actor a)";
        auto simp: exec_def step_defs msg_defs
          split: option.splits if_splits await_result.splits;
        metis pc.distinct outcome.distinct)
qed

lemma exec_rank:
  "exec m cs x s = Some s' \<Longrightarrow> rank (pc s' (actor x)) < rank (pc s (actor x))"
  by (cases x; cases "pc s (actor x)")
     (auto simp: exec_def step_defs split: option.splits if_splits await_result.splits)

lemma run_rank:
  assumes "a \<noteq> b"
  shows "run m cs acts s = Some s' \<Longrightarrow>
           length (filter (\<lambda>x. actor x = a \<or> actor x = b) acts)
             + rank (pc s' a) + rank (pc s' b) \<le> rank (pc s a) + rank (pc s b)"
proof (induction acts arbitrary: s)
  case Nil
  then show ?case by simp
next
  case (Cons x acts)
  then obtain s1 where x: "exec m cs x s = Some s1" and rest: "run m cs acts s1 = Some s'"
    by (auto split: option.splits)
  note ih = Cons.IH [OF rest]
  consider "actor x = a" | "actor x = b" | "actor x \<noteq> a" "actor x \<noteq> b" by blast
  then show ?case
  proof cases
    case 1
    with exec_rank [OF x] have "rank (pc s1 a) < rank (pc s a)" by simp
    moreover from exec_frame [OF x, of b] 1 assms have "pc s1 b = pc s b" by simp
    ultimately show ?thesis using ih 1 by simp
  next
    case 2
    with exec_rank [OF x] have "rank (pc s1 b) < rank (pc s b)" by simp
    moreover from exec_frame [OF x, of a] 2 assms have "pc s1 a = pc s a" by simp
    ultimately show ?thesis using ih 2 by simp
  next
    case 3
    from exec_frame [OF x, of a] exec_frame [OF x, of b] 3
    have "pc s1 a = pc s a" "pc s1 b = pc s b" by simp_all
    with ih 3 show ?thesis by simp
  qed
qed

lemma parked_rendezvous_inv:
  assumes "reachable m cs s"
    and "\<forall>j. j \<noteq> b \<longrightarrow> our_key (advertise (cs j)) \<noteq> our_key (advertise (cs b))"
    and "\<forall>j. j \<noteq> b \<longrightarrow> get_socket_address (cs j) \<noteq> get_socket_address (cs b)"
    and "pc s a = PC_Await"
    and "pc s b \<in> {PC_ReceiveAdvertise, PC_SendAdvertiseChallenge, PC_ReceiveAdvertiseResponse, PC_Get}"
  shows "rendezvous_inv m (cs a) (cs b) a b s"
proof -
  have "key_to_identifier_store s (our_key (advertise (cs b))) = None"
  proof (rule ccontr)
    assume "key_to_identifier_store s (our_key (advertise (cs b))) \<noteq> None"
    then obtain r where "key_to_identifier_store s (our_key (advertise (cs b))) = Some r"
      by blast
    from store_registered [OF assms(1) this] obtain j
      where "our_key (advertise (cs j)) = our_key (advertise (cs b))" and "registered (pc s j)"
      by blast
    with assms(2) have "registered (pc s b)" by auto
    with assms(5) show False by auto
  qed
  moreover have "get_socket_address (cs b) \<notin> completed_disconnects s"
  proof
    assume "get_socket_address (cs b) \<in> completed_disconnects s"
    from completed_returned [OF assms(1) this] obtain j
      where "get_socket_address (cs j) = get_socket_address (cs b)"
        and "pc s j = PC_Returned (QuitAfter TPeerDisconnect) \<or> pc s j = PC_Returned (Finished Responder)"
      by blast
    with assms(3) have "pc s b = PC_Returned (QuitAfter TPeerDisconnect) \<or> pc s b = PC_Returned (Finished Responder)"
      by auto
    with assms(5) show False by auto
  qed
  moreover from registered_stored [OF assms(1), of a] assms(4)
  have "key_to_identifier_store s (our_key (advertise (cs a))) \<noteq> None"
    by simp
  ultimately show ?thesis
    using assms(4,5) by (auto simp: rendezvous_inv_def responder_early_def)
qed

lemma rendezvous_phase_Returned:
  "rendezvous_phase m cA cB a s (PC_Returned out) =
     ((out = QuitAfter TPeerDisconnect \<or> out = Finished Responder) \<and> responder_marked m cA cB a s)"
proof (cases out)
  case (QuitAfter t)
  then show ?thesis by (cases t) auto
next
  case (Finished r)
  then show ?thesis by (cases r) auto
qed auto

lemma socket_address_own_identifier:
  "socket_address (own_identifier c) = get_socket_address c"
  by (simp add: own_identifier_def)

text \<open>What the step of a session can change in the store and in the completed set.\<close>

lemma exec_shared:
  assumes "exec m cs x s = Some s'"
  shows "(k \<noteq> our_key (advertise (cs (actor x))) \<longrightarrow>
            key_to_identifier_store s' k = key_to_identifier_store s k)
       \<and> (key_to_identifier_store s k \<noteq> None \<longrightarrow> key_to_identifier_store s' k \<noteq> None)
       \<and> (y \<noteq> get_socket_address (cs (actor x))
            \<and> (\<forall>r. pc s (actor x) = PC_WaitForDisconnect r \<longrightarrow> y \<noteq> socket_address r) \<longrightarrow>
            (y \<in> completed_disconnects s') = (y \<in> completed_disconnects s))"
  using assms
  by (cases x; cases "pc s (actor x)")
     (auto simp: exec_def step_defs split: option.splits if_splits await_result.splits)

lemma rendezvous_inv_other:
  assumes inv: "rendezvous_inv m (cs a) (cs b) a b s"
    and reach: "reachable m cs s"
    and only_key: "\<forall>j. j \<noteq> b \<longrightarrow> our_key (advertise (cs j)) \<noteq> our_key (advertise (cs b))"
    and only_asker: "\<forall>j. j \<noteq> a \<longrightarrow> their_key (advertise (cs j)) \<noteq> our_key (advertise (cs b))"
    and only_address: "\<forall>j. j \<noteq> b \<longrightarrow> get_socket_address (cs j) \<noteq> get_socket_address (cs b)"
    and step: "exec m cs x s = Some s'"
    and other: "actor x \<noteq> a" "actor x \<noteq> b"
  shows "rendezvous_inv m (cs a) (cs b) a b s'"
proof -
  have waits: "get_socket_address (cs b) \<noteq> socket_address r"
    if "pc s (actor x) = PC_WaitForDisconnect r" for r
  proof -
    from awaited_peer_records [OF reach, of "actor x" r] that obtain j
      where j: "our_key (advertise (cs j)) = their_key (advertise (cs (actor x)))"
        and r: "r = own_identifier (cs j)"
      by blast
    from j only_asker other(1) have "our_key (advertise (cs j)) \<noteq> our_key (advertise (cs b))"
      by auto
    then have "j \<noteq> b" by auto
    with only_address r show ?thesis by (auto simp: own_identifier_def)
  qed
  from only_key other(2)
  have key: "our_key (advertise (cs b)) \<noteq> our_key (advertise (cs (actor x)))" by auto
  from only_address other(2)
  have addr: "get_socket_address (cs b) \<noteq> get_socket_address (cs (actor x))" by auto
  from exec_shared [OF step, of "our_key (advertise (cs b))" "get_socket_address (cs b)"] key addr waits
  have b_store: "key_to_identifier_store s' (our_key (advertise (cs b)))
                   = key_to_identifier_store s (our_key (advertise (cs b)))"
    and b_mark: "(get_socket_address (cs b) \<in> completed_disconnects s')
                   = (get_socket_address (cs b) \<in> completed_disconnects s)"
    by auto
  from exec_shared [OF step, of "our_key (advertise (cs a))" "get_socket_address (cs b)"] inv
  have a_store: "key_to_identifier_store s' (our_key (advertise (cs a))) \<noteq> None"
    by (auto simp: rendezvous_inv_def)
  from exec_frame [OF step, of a] exec_frame [OF step, of b] other
  have frame: "pc s' a = pc s a" "pc s' b = pc s b" "socket_sent s' a = socket_sent s a"
    by simp_all
  from inv a_store b_store b_mark frame show ?thesis
    by (cases "pc s b")
       (auto simp: rendezvous_inv_def rendezvous_phase_Returned responder_early_def
          responder_registered_def responder_marked_def)
qed

lemma rendezvous_inv_step:
  assumes inv: "rendezvous_inv m (cs a) (cs b) a b s"
    and reach: "reachable m cs s"
    and hook: "quit_after m \<notin> {Some TAdvertise, Some TAdvertiseChallenge, Some TAdvertiseResponse}"
    and keys: "their_key (advertise (cs a)) = our_key (advertise (cs b))"
      "their_key (advertise (cs b)) = our_key (advertise (cs a))"
      "our_key (advertise (cs a)) \<noteq> our_key (advertise (cs b))"
    and valid: "\<not> version (advertise (cs b)) < protocol_version m"
    and only_key: "\<forall>j. j \<noteq> b \<longrightarrow> our_key (advertise (cs j)) \<noteq> our_key (advertise (cs b))"
    and only_asker: "\<forall>j. j \<noteq> a \<longrightarrow> their_key (advertise (cs j)) \<noteq> our_key (advertise (cs b))"
    and only_address: "\<forall>j. j \<noteq> b \<longrightarrow> get_socket_address (cs j) \<noteq> get_socket_address (cs b)"
    and step: "exec m cs x s = Some s'"
    and no_deadline: "x \<noteq> Deadline a"
  shows "rendezvous_inv m (cs a) (cs b) a b s'"
proof -
  from keys(3) have ab: "a \<noteq> b" by auto
  note sent = reachable_sent_ok [OF reach, of a]
  consider "x = Run a" | "actor x = b" | "actor x \<noteq> a" "actor x \<noteq> b"
    using no_deadline by (cases x) auto
  then show ?thesis
  proof cases
    case 1
    with inv sent hook keys valid step ab show ?thesis
      by (cases "pc s b")
         (auto simp: rendezvous_inv_def rendezvous_phase_Returned responder_early_def
            responder_registered_def responder_marked_def exec_def step_defs
            socket_address_own_identifier
            split: option.splits if_splits await_result.splits)
  next
    case 2
    with inv sent hook keys valid step ab show ?thesis
      by (cases x; cases "pc s b")
         (auto simp: rendezvous_inv_def rendezvous_phase_Returned responder_early_def
            responder_registered_def responder_marked_def exec_def step_defs
            socket_address_own_identifier
            split: option.splits if_splits await_result.splits)
  next
    case 3
    from rendezvous_inv_other [OF inv reach only_key only_asker only_address step 3]
    show ?thesis .
  qed
qed

lemma run_rendezvous_inv:
  assumes hook: "quit_after m \<notin> {Some TAdvertise, Some TAdvertiseChallenge, Some TAdvertiseResponse}"
    and keys: "their_key (advertise (cs a)) = our_key (advertise (cs b))"
      "their_key (advertise (cs b)) = our_key (advertise (cs a))"
      "our_key (advertise (cs a)) \<noteq> our_key (advertise (cs b))"
    and valid: "\<not> version (advertise (cs b)) < protocol_version m"
    and only_key: "\<forall>j. j \<noteq> b \<longrightarrow> our_key (advertise (cs j)) \<noteq> our_key (advertise (cs b))"
    and only_asker: "\<forall>j. j \<noteq> a \<longrightarrow> their_key (advertise (cs j)) \<noteq> our_key (advertise (cs b))"
    and only_address: "\<forall>j. j \<noteq> b \<longrightarrow> get_socket_address (cs j) \<noteq> get_socket_address (cs b)"
  shows "reachable m cs s \<Longrightarrow> rendezvous_inv m (cs a) (cs b) a b s \<Longrightarrow>
           run m cs acts s = Some s' \<Longrightarrow> Deadline a \<notin> set acts \<Longrightarrow>
           rendezvous_inv m (cs a) (cs b) a b s'"
proof (induction acts arbitrary: s)
  case Nil
  then show ?case by simp
next
  case (Cons x acts)
  then obtain s1 where x: "exec m cs x s = Some s1" and rest: "run m cs acts s1 = Some s'"
    by (auto split: option.splits)
  from Cons.prems(4) have sub: "Deadline a \<notin> set acts" and xd: "x \<noteq> Deadline a"
    by auto
  from Cons.prems(1) x have reach1: "reachable m cs s1"
    by (rule reachable_exec)
  from rendezvous_inv_step [OF Cons.prems(2,1) hook keys valid only_key only_asker only_address
      x xd]
  have "rendezvous_inv m (cs a) (cs b) a b s1" .
  from Cons.IH [OF reach1 this rest sub] show ?case .
qed

text \<open>
  Claim C2, amended. Let sessions \<open>a\<close> and \<open>b\<close> advertise valid versions and distinct own
  keys that reference each other, and let the quit-after hook be set to none of Advertise,
  AdvertiseChallenge and AdvertiseResponse. Let \<open>b\<close> be the only session that advertises
  its own key and the only one with its address, and let \<open>a\<close> be the only session that
  asks for the key of \<open>b\<close>; apart from that, any number of other sessions may exist and
  may be at any point of their handshake. Start in a reachable state \<open>s0\<close> in which \<open>a\<close> has
  registered and is parked in \<open>await\<close> while \<open>b\<close> has not yet looked \<open>a\<close> up, and from
  there let all sessions take steps in any order, with the one restriction that the
  await of \<open>a\<close> does not reach its deadline. Then \<open>a\<close> and \<open>b\<close> together take at most 11
  steps, and as soon as neither of the two handlers can take a step, both have returned,
  \<open>a\<close> has been sent its challenge and then the PeerIdentification with the version, host
  and port of \<open>b\<close>, and \<open>b\<close> has been sent its challenge and then the PeerDisconnect with
  its own port.
\<close>

theorem rendezvous_delivers:
  assumes "reachable m cs s0"
    and "quit_after m \<notin> {Some TAdvertise, Some TAdvertiseChallenge, Some TAdvertiseResponse}"
    and "their_key (advertise (cs a)) = our_key (advertise (cs b))"
    and "their_key (advertise (cs b)) = our_key (advertise (cs a))"
    and "our_key (advertise (cs a)) \<noteq> our_key (advertise (cs b))"
    and "\<not> version (advertise (cs a)) < protocol_version m"
    and "\<not> version (advertise (cs b)) < protocol_version m"
    and "\<forall>j. j \<noteq> b \<longrightarrow> our_key (advertise (cs j)) \<noteq> our_key (advertise (cs b))"
    and "\<forall>j. j \<noteq> a \<longrightarrow> their_key (advertise (cs j)) \<noteq> our_key (advertise (cs b))"
    and "\<forall>j. j \<noteq> b \<longrightarrow> get_socket_address (cs j) \<noteq> get_socket_address (cs b)"
    and "pc s0 a = PC_Await"
    and "pc s0 b \<in> {PC_ReceiveAdvertise, PC_SendAdvertiseChallenge, PC_ReceiveAdvertiseResponse, PC_Get}"
    and "run m cs acts s0 = Some s"
    and "Deadline a \<notin> set acts"
  shows "length (filter (\<lambda>x. actor x = a \<or> actor x = b) acts) \<le> 11
       \<and> (handle_connection m (cs a) a s = None \<and> handle_connection m (cs b) b s = None \<longrightarrow>
            socket_sent s a =
              [advertise_challenge m (advertise (cs a)),
               PeerIdentification (version (advertise (cs b))) (ip (get_socket_address (cs b)))
                 (port (get_socket_address (cs b)))]
            \<and> socket_sent s b =
                [advertise_challenge m (advertise (cs b)),
                 PeerDisconnect (port (get_socket_address (cs b)))]
            \<and> (\<exists>out. pc s a = PC_Returned out) \<and> (\<exists>out. pc s b = PC_Returned out))"
proof -
  from assms(5) have ab: "a \<noteq> b" by auto
  from run_rank [OF ab assms(13)] assms(11,12)
  have bound: "length (filter (\<lambda>x. actor x = a \<or> actor x = b) acts) \<le> 11" by auto
  have inv0: "rendezvous_inv m (cs a) (cs b) a b s0"
    by (rule parked_rendezvous_inv [OF assms(1,8,10,11,12)])
  have inv: "rendezvous_inv m (cs a) (cs b) a b s"
    by (rule run_rendezvous_inv [OF assms(2,3,4,5,7,8,9,10) assms(1) inv0 assms(13,14)])
  have reach: "reachable m cs s"
    by (rule reachable_run [OF assms(1,13)])
  note sent_b = reachable_sent_ok [OF reach, of b]
  have "socket_sent s a =
          [advertise_challenge m (advertise (cs a)),
           PeerIdentification (version (advertise (cs b))) (ip (get_socket_address (cs b)))
             (port (get_socket_address (cs b)))]
        \<and> socket_sent s b =
            [advertise_challenge m (advertise (cs b)),
             PeerDisconnect (port (get_socket_address (cs b)))]
        \<and> (\<exists>out. pc s a = PC_Returned out) \<and> (\<exists>out. pc s b = PC_Returned out)"
    if stuck: "handle_connection m (cs a) a s = None" "handle_connection m (cs b) b s = None"
    using inv stuck sent_b assms(3)
    by (cases "pc s b")
       (auto simp: rendezvous_inv_def rendezvous_phase_Returned responder_early_def
          responder_registered_def responder_marked_def step_defs peer_identification_def
          own_identifier_def
          split: option.splits if_splits await_result.splits)
  with bound show ?thesis by blast
qed

text \<open>
  The theorem at sessions 0 and 1: session 0 parks; then session 1 runs to its end and
  session 0 finishes, while bystander 2, which also asks for the key of session 0, goes
  through its own handshake in between.
\<close>

theorem rendezvous_delivers_witness:
  "\<exists>s0 s. run demo_mediator demo_sessions first_arrives init_state = Some s0
     \<and> pc s0 0 = PC_Await \<and> pc s0 1 = PC_ReceiveAdvertise
     \<and> run demo_mediator demo_sessions crowded_arrival s0 = Some s
     \<and> (\<exists>out. pc s 2 = PC_Returned out)
     \<and> handle_connection demo_mediator (demo_sessions 0) 0 s = None
     \<and> handle_connection demo_mediator (demo_sessions 1) 1 s = None
     \<and> socket_sent s 0 = [AdvertiseChallenge ''enc(ka,1337)'', PeerIdentification 1 ''10.0.0.2'' 6000]
     \<and> socket_sent s 1 = [AdvertiseChallenge ''enc(kb,1337)'', PeerDisconnect 6000]"
proof -
  define s0 where "s0 = the (run demo_mediator demo_sessions first_arrives init_state)"
  define s where "s = the (run demo_mediator demo_sessions crowded_arrival s0)"
  have r0: "run demo_mediator demo_sessions first_arrives init_state = Some s0"
    unfolding s0_def by (simp add: demo_defs step_defs)
  have r: "run demo_mediator demo_sessions crowded_arrival s0 = Some s"
    unfolding s_def s0_def by (simp add: crowded_arrival_def demo_defs step_defs)
  have p0: "pc s0 0 = PC_Await" and p1: "pc s0 1 = PC_ReceiveAdvertise"
    unfolding s0_def by (simp_all add: demo_defs step_defs)
  have p2: "\<exists>out. pc s 2 = PC_Returned out"
    unfolding s_def s0_def by (simp add: crowded_arrival_def demo_defs step_defs)
  have stuck: "handle_connection demo_mediator (demo_sessions 0) 0 s = None"
    "handle_connection demo_mediator (demo_sessions 1) 1 s = None"
    unfolding s_def s0_def by (simp_all add: crowded_arrival_def demo_defs step_defs)
  have hook: "quit_after demo_mediator
                \<notin> {Some TAdvertise, Some TAdvertiseChallenge, Some TAdvertiseResponse}"
    by (simp add: demo_defs)
  have keys: "their_key (advertise (demo_sessions 0)) = our_key (advertise (demo_sessions 1))"
    "their_key (advertise (demo_sessions 1)) = our_key (advertise (demo_sessions 0))"
    "our_key (advertise (demo_sessions 0)) \<noteq> our_key (advertise (demo_sessions 1))"
    by (simp_all add: demo_defs)
  have valid: "\<not> version (advertise (demo_sessions 0)) < protocol_version demo_mediator"
    "\<not> version (advertise (demo_sessions 1)) < protocol_version demo_mediator"
    by (simp_all add: demo_defs)
  have only: "\<forall>j. j \<noteq> 1 \<longrightarrow>
                our_key (advertise (demo_sessions j)) \<noteq> our_key (advertise (demo_sessions 1))"
    "\<forall>j. j \<noteq> 0 \<longrightarrow>
       their_key (advertise (demo_sessions j)) \<noteq> our_key (advertise (demo_sessions 1))"
    "\<forall>j. j \<noteq> 1 \<longrightarrow>
       get_socket_address (demo_sessions j) \<noteq> get_socket_address (demo_sessions 1)"
    by (simp_all add: demo_sessions_def)
  have early: "pc s0 1 \<in> {PC_ReceiveAdvertise, PC_SendAdvertiseChallenge,
                  PC_ReceiveAdvertiseResponse, PC_Get}"
    using p1 by simp
  have acts: "Deadline 0 \<notin> set crowded_arrival"
    by (simp add: crowded_arrival_def)
  have msgs: "advertise_challenge demo_mediator (advertise (demo_sessions 0))
                = AdvertiseChallenge ''enc(ka,1337)''"
    "advertise_challenge demo_mediator (advertise (demo_sessions 1))
       = AdvertiseChallenge ''enc(kb,1337)''"
    "get_socket_address (demo_sessions 1) = SocketAddress ''10.0.0.2'' 6000"
    "version (advertise (demo_sessions 1)) = 1"
    by (simp_all add: demo_defs to_string.simps)
  from rendezvous_delivers [OF reachable_from_init [OF r0] hook keys valid only p0 early r acts]
    stuck msgs
  have "socket_sent s 0 = [AdvertiseChallenge ''enc(ka,1337)'', PeerIdentification 1 ''10.0.0.2'' 6000]
        \<and> socket_sent s 1 = [AdvertiseChallenge ''enc(kb,1337)'', PeerDisconnect 6000]"
    by simp
  with r0 r p0 p1 p2 stuck show ?thesis by blast
qed

text \<open>
  Claim C2 as it is stated is refuted by the timeout. Session 1 arrives strictly after
  session 0 has completed its challenge exchange, but only after the await of session 0
  has timed out (lines 121 to 128): both handlers return, session 1 has been sent its
  PeerDisconnect, and session 0 has been sent nothing but its challenge.
\<close>

theorem late_arrival_gets_no_peer_identification:
  "sent_after demo_mediator demo_sessions late_arrival 0
     = Some [AdvertiseChallenge ''enc(ka,1337)'']
   \<and> pc_after demo_mediator demo_sessions late_arrival 0 = Some (PC_Returned PeerNeverArrived)
   \<and> sent_after demo_mediator demo_sessions late_arrival 1
       = Some [AdvertiseChallenge ''enc(kb,1337)'', PeerDisconnect 6000]
   \<and> pc_after demo_mediator demo_sessions late_arrival 1 = Some (PC_Returned (Finished Responder))"
  by (simp add: sent_after_def pc_after_def late_arrival_def demo_defs step_defs to_string.simps)

end
